theory Spec2Isabelle
  imports Main "HOL-Library.AList" "HOL-Library.Sublist"
begin

section \<open>Shared conventions\<close>

text \<open>
  Go strings are byte strings and are modelled as \<open>string\<close>.  A \<open>time.Time\<close> is an \<open>int\<close>
  (nanoseconds on one clock), so \<open>Before\<close> is \<open><\<close> and \<open>Sub\<close> is subtraction; every
  \<open>time.Now()\<close> of the source is an explicit argument \<open>now\<close>.  A Go map that the code
  iterates over is an association list: \<open>m[k]\<close> is \<open>map_of\<close>, \<open>m[k] = v\<close> is
  \<open>AList.update\<close>, \<open>delete(m, k)\<close> is \<open>AList.delete\<close> and \<open>range m\<close> visits the
  entries in list order (Go leaves the order open; the theorems below hold for each order).
\<close>

definition Contains :: "string \<Rightarrow> string \<Rightarrow> bool" where
  \<comment> \<open>\<open>strings.Contains(s, substr)\<close>\<close>
  "Contains s substr = sublist substr s"

fun first_index :: "('a \<Rightarrow> bool) \<Rightarrow> 'a list \<Rightarrow> nat option" where
  \<comment> \<open>the index at which a \<open>for i, x := range xs { if P x { ... return } }\<close> loop stops\<close>
  "first_index P [] = None"
| "first_index P (x # xs) = (if P x then Some 0 else map_option Suc (first_index P xs))"

definition remove_at :: "nat \<Rightarrow> 'a list \<Rightarrow> 'a list" where
  \<comment> \<open>\<open>append(xs[:i], xs[i+1:]...)\<close>, used only with \<open>i < len(xs)\<close>\<close>
  "remove_at i xs = take i xs @ drop (Suc i) xs"

text \<open>
  Go's \<open>int\<close> has 64 bits on the platforms the invoker is built for.  Numbers are
  modelled as mathematical integers; where the source computes with \<open>int\<close> and the
  result may leave the range, \<open>go_int\<close> gives the value the machine holds: the result
  reduced modulo \<open>2^64\<close> into the range from \<open>-2^63\<close> up to \<open>2^63 - 1\<close>.
\<close>

definition go_int :: "int \<Rightarrow> int" where
  "go_int x = (x + 2 ^ 63) mod 2 ^ 64 - 2 ^ 63"

section \<open>The container pool: \<open>internal/container/pool.go\<close>\<close>

datatype PoolState = PoolStateWarm | PoolStateBusy | PoolStatePaused

record Container =
  ID :: string
  IP :: string

record PooledContainer =
  Container :: Container
  Runtime :: string
  State :: PoolState
  LastUsed :: int
  InitializedAction :: string

text \<open>
  The pool calls \<open>p.manager.CreateContainer(ctx, runtime)\<close> and
  \<open>p.manager.RemoveContainer(ctx, id)\<close>.  What the container daemon answers is not decided
  by the pool, so it is a parameter: a \<open>Docker\<close> gives the outcome of each call as a function
  of the calls made before it.  The pool's \<open>manager\<close> field is the list of calls issued so
  far, oldest first, which makes creations and removals observable.
\<close>

datatype mgr_call = CallCreate string | CallRemove string

record Docker =
  create_outcome :: "mgr_call list \<Rightarrow> string \<Rightarrow> string + Container"
  remove_outcome :: "mgr_call list \<Rightarrow> string \<Rightarrow> string option"

record ContainerPool =
  manager :: "mgr_call list"
  warmContainers :: "(string \<times> PooledContainer list) list"
  busyContainers :: "(string \<times> PooledContainer) list"
  prewarmConfig :: "(string \<times> int) list"
  maxPoolSize :: int
  idleTimeout :: int
  cleanupInterval :: int

definition mgr_CreateContainer ::
  "Docker \<Rightarrow> string \<Rightarrow> ContainerPool \<Rightarrow> (string + Container) \<times> ContainerPool" where
  "mgr_CreateContainer d runtime p =
     (create_outcome d (manager p) runtime, p\<lparr>manager := manager p @ [CallCreate runtime]\<rparr>)"

definition mgr_RemoveContainer ::
  "Docker \<Rightarrow> string \<Rightarrow> ContainerPool \<Rightarrow> string option \<times> ContainerPool" where
  "mgr_RemoveContainer d containerID p =
     (remove_outcome d (manager p) containerID, p\<lparr>manager := manager p @ [CallRemove containerID]\<rparr>)"

subsection \<open>\<open>GetContainer\<close>\<close>

definition take_initialized ::
  "int \<Rightarrow> string \<Rightarrow> string \<Rightarrow> ContainerPool \<Rightarrow> (PooledContainer \<times> ContainerPool) option" where
  \<comment> \<open>"First: check for warm container initialized with same action"\<close>
  "take_initialized now runtime action p =
     (case map_of (warmContainers p) runtime of
        None \<Rightarrow> None
      | Some containers \<Rightarrow>
          (case first_index (\<lambda>pc. InitializedAction pc = action \<and> State pc = PoolStateWarm) containers of
             None \<Rightarrow> None
           | Some i \<Rightarrow>
               (let pc = (containers ! i)\<lparr>State := PoolStateBusy, LastUsed := now\<rparr>
                in Some (pc, p\<lparr>warmContainers := AList.update runtime (remove_at i containers) (warmContainers p),
                               busyContainers := AList.update (ID (Container pc)) pc (busyContainers p)\<rparr>))))"

definition take_matching_runtime ::
  "int \<Rightarrow> string \<Rightarrow> string \<Rightarrow> ContainerPool \<Rightarrow> (PooledContainer \<times> ContainerPool) option" where
  \<comment> \<open>"Second: check for warm container with matching runtime"\<close>
  "take_matching_runtime now runtime action p =
     (case map_of (warmContainers p) runtime of
        None \<Rightarrow> None
      | Some containers \<Rightarrow>
          (if length containers > 0 then
             (let pc = (containers ! (length containers - 1))
                         \<lparr>State := PoolStateBusy, LastUsed := now, InitializedAction := action\<rparr>
              in Some (pc, p\<lparr>warmContainers := AList.update runtime (take (length containers - 1) containers) (warmContainers p),
                             busyContainers := AList.update (ID (Container pc)) pc (busyContainers p)\<rparr>))
           else None))"

definition create_cold ::
  "Docker \<Rightarrow> int \<Rightarrow> string \<Rightarrow> string \<Rightarrow> ContainerPool \<Rightarrow> (string + PooledContainer) \<times> ContainerPool" where
  \<comment> \<open>"Third: create new container (cold start)"\<close>
  "create_cold d now runtime action p =
     (case mgr_CreateContainer d runtime p of
        (Inl err, p1) \<Rightarrow> (Inl (''failed to create container: '' @ err), p1)
      | (Inr container, p1) \<Rightarrow>
          (let pc = \<lparr>Container = container, Runtime = runtime, State = PoolStateBusy,
                     LastUsed = now, InitializedAction = action\<rparr>
           in (Inr pc, p1\<lparr>busyContainers := AList.update (ID container) pc (busyContainers p1)\<rparr>)))"

definition GetContainer ::
  "Docker \<Rightarrow> int \<Rightarrow> string \<Rightarrow> string \<Rightarrow> ContainerPool \<Rightarrow> (string + PooledContainer) \<times> ContainerPool" where
  "GetContainer d now runtime action p =
     (case take_initialized now runtime action p of
        Some (pc, p') \<Rightarrow> (Inr pc, p')
      | None \<Rightarrow>
          (case take_matching_runtime now runtime action p of
             Some (pc, p') \<Rightarrow> (Inr pc, p')
           | None \<Rightarrow> create_cold d now runtime action p))"

subsection \<open>\<open>removeOldestContainer\<close> and \<open>ReturnContainer\<close>\<close>

definition warm_slice :: "ContainerPool \<Rightarrow> string \<Rightarrow> PooledContainer list" where
  \<comment> \<open>\<open>p.warmContainers[runtime]\<close> read as a slice: a missing key gives nil, the empty slice\<close>
  "warm_slice p runtime = (case map_of (warmContainers p) runtime of None \<Rightarrow> [] | Some containers \<Rightarrow> containers)"

definition warm_entries :: "ContainerPool \<Rightarrow> (string \<times> nat \<times> PooledContainer) list" where
  \<comment> \<open>the (runtime, index, container) triples in the order the nested \<open>range\<close> loops visit them\<close>
  "warm_entries p =
     concat (map (\<lambda>(runtime, containers). map (\<lambda>(i, pc). (runtime, i, pc)) (enumerate 0 containers))
                 (warmContainers p))"

fun older :: "(string \<times> nat \<times> PooledContainer) option \<Rightarrow> string \<times> nat \<times> PooledContainer
                \<Rightarrow> (string \<times> nat \<times> PooledContainer) option" where
  \<comment> \<open>\<open>if oldestPC == nil || pc.LastUsed.Before(oldestPC.LastUsed)\<close>\<close>
  "older None e = Some e"
| "older (Some (oldestRuntime, oldestIndex, oldestPC)) (runtime, i, pc) =
     (if LastUsed pc < LastUsed oldestPC then Some (runtime, i, pc)
      else Some (oldestRuntime, oldestIndex, oldestPC))"

definition find_oldest :: "ContainerPool \<Rightarrow> (string \<times> nat \<times> PooledContainer) option" where
  "find_oldest p = foldl older None (warm_entries p)"

definition removeOldestContainer :: "Docker \<Rightarrow> ContainerPool \<Rightarrow> string option \<times> ContainerPool" where
  "removeOldestContainer d p =
     (case find_oldest p of
        None \<Rightarrow> (Some ''no containers to remove'', p)
      | Some (oldestRuntime, oldestIndex, oldestPC) \<Rightarrow>
          mgr_RemoveContainer d (ID (Container oldestPC))
            (p\<lparr>warmContainers :=
                 AList.update oldestRuntime (remove_at oldestIndex (warm_slice p oldestRuntime))
                   (warmContainers p)\<rparr>))"

definition totalWarm :: "ContainerPool \<Rightarrow> int" where
  \<comment> \<open>\<open>for _, containers := range p.warmContainers { totalWarm += len(containers) }\<close>\<close>
  "totalWarm p = sum_list (map (\<lambda>(runtime, containers). int (length containers)) (warmContainers p))"

definition add_warm :: "PooledContainer \<Rightarrow> ContainerPool \<Rightarrow> ContainerPool" where
  \<comment> \<open>\<open>p.warmContainers[pc.Runtime] = append(p.warmContainers[pc.Runtime], pc)\<close>\<close>
  "add_warm pc p =
     p\<lparr>warmContainers := AList.update (Runtime pc) (warm_slice p (Runtime pc) @ [pc]) (warmContainers p)\<rparr>"

definition ReturnContainer ::
  "Docker \<Rightarrow> int \<Rightarrow> string \<Rightarrow> bool \<Rightarrow> ContainerPool \<Rightarrow> string option \<times> ContainerPool" where
  "ReturnContainer d now containerID reuse p =
     (case map_of (busyContainers p) containerID of
        None \<Rightarrow> (Some (''container '' @ containerID @ '' not found in busy pool''), p)
      | Some pc \<Rightarrow>
          (let p1 = p\<lparr>busyContainers := AList.delete containerID (busyContainers p)\<rparr>
           in if \<not> reuse then mgr_RemoveContainer d containerID p1
              else if totalWarm p1 \<ge> maxPoolSize p1 then
                (case removeOldestContainer d p1 of
                   (Some err, p2) \<Rightarrow> mgr_RemoveContainer d containerID p2
                 | (None, p2) \<Rightarrow> (None, add_warm (pc\<lparr>State := PoolStateWarm, LastUsed := now\<rparr>) p2))
              else (None, add_warm (pc\<lparr>State := PoolStateWarm, LastUsed := now\<rparr>) p1)))"

subsection \<open>\<open>PrewarmContainers\<close> and \<open>ScalePool\<close>\<close>

definition stem_cells :: "ContainerPool \<Rightarrow> string \<Rightarrow> nat" where
  \<comment> \<open>\<open>existing\<close>: the warm containers of the runtime with \<open>InitializedAction == ""\<close>\<close>
  "stem_cells p runtime = length (filter (\<lambda>pc. InitializedAction pc = []) (warm_slice p runtime))"

fun add_stem_cells :: "Docker \<Rightarrow> int \<Rightarrow> string \<Rightarrow> nat \<Rightarrow> ContainerPool \<Rightarrow> string option \<times> ContainerPool" where
  \<comment> \<open>the loop \<open>for i := 0; i < n; i++\<close> that creates one prewarmed container per round and
      returns at the first creation error\<close>
  "add_stem_cells d now runtime 0 p = (None, p)"
| "add_stem_cells d now runtime (Suc n) p =
     (case mgr_CreateContainer d runtime p of
        (Inl err, p1) \<Rightarrow> (Some err, p1)
      | (Inr container, p1) \<Rightarrow>
          add_stem_cells d now runtime n
            (add_warm \<lparr>Container = container, Runtime = runtime, State = PoolStateWarm,
                       LastUsed = now, InitializedAction = []\<rparr> p1))"

fun prewarm_runtimes :: "Docker \<Rightarrow> int \<Rightarrow> (string \<times> int) list \<Rightarrow> ContainerPool \<Rightarrow> string option \<times> ContainerPool" where
  \<comment> \<open>\<open>for runtime, count := range p.prewarmConfig\<close>; \<open>existing\<close> is counted up by
      \<open>existing++\<close> and \<open>needed := count - existing\<close> is a subtraction of two \<open>int\<close>s\<close>
  "prewarm_runtimes d now [] p = (None, p)"
| "prewarm_runtimes d now ((runtime, count) # rest) p =
     (let existing = go_int (int (stem_cells p runtime));
          needed = go_int (count - existing)
      in case add_stem_cells d now runtime (nat needed) p of
           (Some err, p1) \<Rightarrow> (Some (''failed to prewarm container for runtime '' @ runtime @ '': '' @ err), p1)
         | (None, p1) \<Rightarrow> prewarm_runtimes d now rest p1)"

definition PrewarmContainers :: "Docker \<Rightarrow> int \<Rightarrow> ContainerPool \<Rightarrow> string option \<times> ContainerPool" where
  "PrewarmContainers d now p = prewarm_runtimes d now (prewarmConfig p) p"

definition prewarm_count :: "ContainerPool \<Rightarrow> string \<Rightarrow> int" where
  \<comment> \<open>\<open>p.prewarmConfig[runtime]\<close>: zero for a missing key\<close>
  "prewarm_count p runtime = (case map_of (prewarmConfig p) runtime of None \<Rightarrow> 0 | Some c \<Rightarrow> c)"

fun remove_listed :: "Docker \<Rightarrow> PooledContainer list \<Rightarrow> ContainerPool \<Rightarrow> string option \<times> ContainerPool" where
  \<comment> \<open>the first loop of the scale-down branch, over \<open>containers[0 .. min(toRemove, len)-1]\<close>:
      it asks the daemon to remove each warm, uninitialized container and returns at the
      first failure\<close>
  "remove_listed d [] p = (None, p)"
| "remove_listed d (pc # rest) p =
     (if State pc = PoolStateWarm \<and> InitializedAction pc = [] then
        (case mgr_RemoveContainer d (ID (Container pc)) p of
           (Some err, p1) \<Rightarrow> (Some (''failed to remove container: '' @ err), p1)
         | (None, p1) \<Rightarrow> remove_listed d rest p1)
      else remove_listed d rest p)"

fun drop_stem_cells :: "nat \<Rightarrow> PooledContainer list \<Rightarrow> PooledContainer list" where
  \<comment> \<open>\<open>remaining\<close>: the list without its first \<open>toRemove\<close> warm, uninitialized containers\<close>
  "drop_stem_cells toRemove [] = []"
| "drop_stem_cells toRemove (pc # rest) =
     (if 0 < toRemove \<and> State pc = PoolStateWarm \<and> InitializedAction pc = []
      then drop_stem_cells (toRemove - 1) rest
      else pc # drop_stem_cells toRemove rest)"

definition ScalePool :: "Docker \<Rightarrow> int \<Rightarrow> string \<Rightarrow> int \<Rightarrow> ContainerPool \<Rightarrow> string option \<times> ContainerPool" where
  "ScalePool d now runtime delta p =
     (if delta > 0 then
        (case add_stem_cells d now runtime (nat delta) p of
           (Some err, p1) \<Rightarrow> (Some (''failed to scale up pool: '' @ err), p1)
         | (None, p1) \<Rightarrow>
             (None, p1\<lparr>prewarmConfig := AList.update runtime (go_int (prewarm_count p1 runtime + delta)) (prewarmConfig p1)\<rparr>))
      else if delta < 0 then
        (let toRemove = nat (go_int (- delta));
             containers = warm_slice p runtime
         in case remove_listed d (take toRemove containers) p of
              (Some err, p1) \<Rightarrow> (Some err, p1)
            | (None, p1) \<Rightarrow>
                (let p2 = p1\<lparr>warmContainers := AList.update runtime (drop_stem_cells toRemove containers) (warmContainers p1)\<rparr>;
                     newCount = go_int (prewarm_count p2 runtime + delta)
                 in (None, p2\<lparr>prewarmConfig := AList.update runtime (if newCount < 0 then 0 else newCount) (prewarmConfig p2)\<rparr>)))
      else (None, p))"

subsection \<open>\<open>CleanupIdleContainers\<close> and \<open>Shutdown\<close>\<close>

fun remove_each :: "Docker \<Rightarrow> PooledContainer list \<Rightarrow> ContainerPool \<Rightarrow> ContainerPool" where
  \<comment> \<open>asks the daemon to remove every listed container; a failure is printed and ignored\<close>
  "remove_each d [] p = p"
| "remove_each d (pc # rest) p = remove_each d rest (snd (mgr_RemoveContainer d (ID (Container pc)) p))"

definition is_idle :: "int \<Rightarrow> int \<Rightarrow> PooledContainer \<Rightarrow> bool" where
  \<comment> \<open>\<open>pc.State == PoolStateWarm && now.Sub(pc.LastUsed) > maxIdle\<close>\<close>
  "is_idle now maxIdle pc \<longleftrightarrow> State pc = PoolStateWarm \<and> now - LastUsed pc > maxIdle"

fun cleanup_runtimes :: "Docker \<Rightarrow> int \<Rightarrow> int \<Rightarrow> (string \<times> PooledContainer list) list \<Rightarrow> ContainerPool \<Rightarrow> ContainerPool" where
  \<comment> \<open>\<open>for runtime, containers := range p.warmContainers\<close>\<close>
  "cleanup_runtimes d now maxIdle [] p = p"
| "cleanup_runtimes d now maxIdle ((runtime, containers) # rest) p =
     (let p1 = remove_each d (filter (is_idle now maxIdle) containers) p;
          remaining = filter (\<lambda>pc. \<not> is_idle now maxIdle pc) containers
      in cleanup_runtimes d now maxIdle rest
           (p1\<lparr>warmContainers := AList.update runtime remaining (warmContainers p1)\<rparr>))"

definition CleanupIdleContainers :: "Docker \<Rightarrow> int \<Rightarrow> int \<Rightarrow> ContainerPool \<Rightarrow> string option \<times> ContainerPool" where
  "CleanupIdleContainers d now maxIdle p = (None, cleanup_runtimes d now maxIdle (warmContainers p) p)"

fun shutdown_warm :: "Docker \<Rightarrow> (string \<times> PooledContainer list) list \<Rightarrow> ContainerPool \<Rightarrow> ContainerPool" where
  "shutdown_warm d [] p = p"
| "shutdown_warm d ((runtime, containers) # rest) p =
     (let p1 = remove_each d containers p
      in shutdown_warm d rest (p1\<lparr>warmContainers := AList.delete runtime (warmContainers p1)\<rparr>))"

fun shutdown_busy :: "Docker \<Rightarrow> (string \<times> PooledContainer) list \<Rightarrow> ContainerPool \<Rightarrow> ContainerPool" where
  "shutdown_busy d [] p = p"
| "shutdown_busy d ((cid, pc) # rest) p =
     (let p1 = snd (mgr_RemoveContainer d (ID (Container pc)) p)
      in shutdown_busy d rest (p1\<lparr>busyContainers := AList.delete cid (busyContainers p1)\<rparr>))"

definition Shutdown :: "Docker \<Rightarrow> ContainerPool \<Rightarrow> string option \<times> ContainerPool" where
  "Shutdown d p =
     (let p1 = shutdown_warm d (warmContainers p) p
      in (None, shutdown_busy d (busyContainers p1) p1))"

section \<open>The runtime proxy: \<open>internal/runtime/proxy.go\<close>\<close>

text \<open>
  One call of \<open>Init\<close> or \<open>Run\<close> marshals a payload, builds a request, sends it and
  reads the response.  What happens on the wire is the environment's answer and is the
  argument \<open>http_exchange\<close>: which step failed, or the status code that came back
  together with the body (\<open>None\<close> when \<open>io.ReadAll\<close> failed).  For a failed \<open>Do\<close> the
  exchange records the transport error's text and what \<open>ctx.Err()\<close> returns at that moment.
\<close>

datatype ctx_err = CtxNoError | CtxCanceled | CtxDeadlineExceeded

datatype http_exchange =
    MarshalFails
  | NewRequestFails
  | DoFails string ctx_err
  | Responded int "string option"

text \<open>
  The four error types of the file.  Fields are in the order of the struct; a field the
  source leaves out of a literal has Go's zero value (\<open>0\<close>, the empty string, \<open>nil\<close>).
\<close>

datatype rt_error =
    InitializationError string int string
  | ExecutionError string int string
  | TimeoutError string int
  | ContainerError string "string option"

type_synonym json_map = "(string \<times> string) list"

record RunResult =
  Result :: "json_map option"
  Error :: string
  StatusCode :: int

record RuntimeProxy =
  timeout :: int

definition Init :: "RuntimeProxy \<Rightarrow> http_exchange \<Rightarrow> rt_error option" where
  "Init rp x =
     (case x of
        MarshalFails \<Rightarrow> Some (InitializationError ''failed to marshal init payload'' 0 [])
      | NewRequestFails \<Rightarrow> Some (InitializationError ''failed to create init request'' 0 [])
      | DoFails err cerr \<Rightarrow>
          (if cerr = CtxDeadlineExceeded then Some (TimeoutError ''init request timed out'' (timeout rp))
           else Some (ContainerError ''failed to connect to runtime container'' (Some err)))
      | Responded status read \<Rightarrow>
          (let body = (case read of None \<Rightarrow> [] | Some b \<Rightarrow> b)
           in if status \<noteq> 200
              then Some (InitializationError ''init request returned non-200 status'' status body)
              else None))"

definition Run :: "RuntimeProxy \<Rightarrow> (string \<Rightarrow> RunResult option) \<Rightarrow> http_exchange \<Rightarrow> rt_error + RunResult" where
  \<comment> \<open>\<open>unmarshal\<close> is \<open>json.Unmarshal(body, &result)\<close> for \<open>RunResult\<close>; \<open>None\<close> is its error\<close>
  "Run rp unmarshal x =
     (case x of
        MarshalFails \<Rightarrow> Inl (ExecutionError ''failed to marshal run payload'' 0 [])
      | NewRequestFails \<Rightarrow> Inl (ExecutionError ''failed to create run request'' 0 [])
      | DoFails err cerr \<Rightarrow>
          (if cerr = CtxDeadlineExceeded then Inl (TimeoutError ''run request timed out'' (timeout rp))
           else Inl (ContainerError ''failed to connect to runtime container'' (Some err)))
      | Responded status read \<Rightarrow>
          (case read of
             None \<Rightarrow> Inl (ExecutionError ''failed to read run response'' 0 [])
           | Some body \<Rightarrow>
               (if status \<noteq> 200
                then Inl (ExecutionError ''run request returned non-200 status'' status body)
                else (case unmarshal body of
                        None \<Rightarrow> Inl (ExecutionError ''failed to parse run response'' 0 body)
                      | Some result \<Rightarrow> Inr result))))"

text \<open>
  The \<open>Error()\<close> methods.  \<open>%d\<close> of an \<open>int\<close> and \<open>%v\<close> of a \<open>time.Duration\<close> or of
  the wrapped cause are Go's formatting and are taken as the record \<open>formatting\<close>.
\<close>

record formatting =
  fmt_int :: "int \<Rightarrow> string"
  fmt_duration :: "int \<Rightarrow> string"

fun Error_text :: "formatting \<Rightarrow> rt_error \<Rightarrow> string" where
  "Error_text F (InitializationError message status body) =
     ''initialization error: '' @ message @ '' (status: '' @ fmt_int F status @ '', body: '' @ body @ '')''"
| "Error_text F (ExecutionError message status body) =
     ''execution error: '' @ message @ '' (status: '' @ fmt_int F status @ '', body: '' @ body @ '')''"
| "Error_text F (TimeoutError message t) =
     ''timeout error: '' @ message @ '' (timeout: '' @ fmt_duration F t @ '')''"
| "Error_text F (ContainerError message (Some cause)) =
     ''container error: '' @ message @ '' (cause: '' @ cause @ '')''"
| "Error_text F (ContainerError message None) = ''container error: '' @ message"

section \<open>The executor: \<open>HandleInvocation\<close> and \<open>fetchCode\<close>\<close>

text \<open>
  The executor reads these fields of its message and writes these fields of its result;
  the types themselves are declared in a package that is not part of the sources at
  hand, so the records list exactly the fields the function touches.  Record fields are
  global constants in HOL, hence the prefixes.
\<close>

record exec_msg =
  em_ActivationID :: string
  em_Runtime :: string
  em_CodeURL :: string
  em_Binary :: bool
  em_Main :: string
  em_Parameters :: json_map
  em_Namespace :: string
  em_Action :: string

record exec_response =
  xr_StatusCode :: int
  xr_Result :: "json_map option"

record exec_result =
  er_ActivationID :: string
  er_Response :: exec_response
  er_Logs :: "string list"
  er_Start :: int
  er_End :: int
  er_Duration :: int
  er_Namespace :: string
  er_Action :: string

datatype fetch_exchange =
    FetchNewRequestFails string
  | FetchDoFails string
  | FetchResponded int "string + string"

definition fetchCode :: "formatting \<Rightarrow> fetch_exchange \<Rightarrow> string + string" where
  \<comment> \<open>\<open>FetchResponded status read\<close>: the status code and what \<open>io.ReadAll\<close> gives, an error
      text or the body\<close>
  "fetchCode F x =
     (case x of
        FetchNewRequestFails err \<Rightarrow> Inl (''failed to create request: '' @ err)
      | FetchDoFails err \<Rightarrow> Inl (''failed to fetch code: '' @ err)
      | FetchResponded status read \<Rightarrow>
          (if status \<noteq> 200 then Inl (''unexpected status code: '' @ fmt_int F status)
           else (case read of
                   Inl err \<Rightarrow> Inl (''failed to read response body: '' @ err)
                 | Inr code \<Rightarrow> Inr code)))"

text \<open>
  Everything the executor asks of its collaborators is answered by an \<open>exec_env\<close>: the
  pool's \<open>Get\<close> (a container and the cold-start flag, or an error), the three HTTP
  exchanges, the log collector, the publisher and the two clock readings (milliseconds).
  The calls the executor makes are recorded, in order, as \<open>exec_event\<close>s; the deferred
  \<open>Return\<close> or \<open>Remove\<close> is the last one.
\<close>

record exec_env =
  ee_start :: int
  ee_end :: int
  ee_pool_get :: "string + (Container \<times> bool)"
  ee_fetch :: fetch_exchange
  ee_init :: http_exchange
  ee_run :: http_exchange
  ee_unmarshal :: "string \<Rightarrow> RunResult option"
  ee_collect :: "string + string list"
  ee_publish :: "string option"

datatype exec_event =
    EvPoolGet string
  | EvFetchCode string
  | EvInit string
  | EvRun string
  | EvCollectLogs string
  | EvPublishResult exec_result
  | EvPoolReturn string
  | EvPoolRemove string

definition run_phase ::
  "formatting \<Rightarrow> RuntimeProxy \<Rightarrow> exec_env \<Rightarrow> exec_msg \<Rightarrow> Container
     \<Rightarrow> exec_result option \<times> string option \<times> exec_event list" where
  \<comment> \<open>from "Run the action" to the end of \<open>HandleInvocation\<close>\<close>
  "run_phase F rp env msg cont =
     (case Run rp (ee_unmarshal env) (ee_run env) of
        Inl err \<Rightarrow>
          (None, Some (''failed to run action: '' @ Error_text F err),
           [EvRun (ID cont), EvPoolRemove (ID cont)])
      | Inr runResp \<Rightarrow>
          (let containerLogs =
                 (case ee_collect env of
                    Inl err \<Rightarrow> [''Failed to collect logs: '' @ err]
                  | Inr ls \<Rightarrow> ls);
               result = \<lparr>er_ActivationID = em_ActivationID msg,
                         er_Response = \<lparr>xr_StatusCode = StatusCode runResp, xr_Result = Result runResp\<rparr>,
                         er_Logs = containerLogs,
                         er_Start = ee_start env,
                         er_End = ee_end env,
                         er_Duration = ee_end env - ee_start env,
                         er_Namespace = em_Namespace msg,
                         er_Action = em_Action msg\<rparr>;
               events = [EvRun (ID cont), EvCollectLogs (ID cont), EvPublishResult result,
                         EvPoolReturn (ID cont)]
           in case ee_publish env of
                Some err \<Rightarrow> (Some result, Some (''failed to publish result: '' @ err), events)
              | None \<Rightarrow> (Some result, None, events)))"

definition HandleInvocation ::
  "formatting \<Rightarrow> RuntimeProxy \<Rightarrow> exec_env \<Rightarrow> exec_msg
     \<Rightarrow> exec_result option \<times> string option \<times> exec_event list" where
  "HandleInvocation F rp env msg =
     (case ee_pool_get env of
        Inl err \<Rightarrow> (None, Some (''failed to get container: '' @ err), [EvPoolGet (em_Runtime msg)])
      | Inr (cont, isColdStart) \<Rightarrow>
          (case fetchCode F (ee_fetch env) of
             Inl err \<Rightarrow>
               (None, Some (''failed to fetch code: '' @ err),
                [EvPoolGet (em_Runtime msg), EvFetchCode (em_CodeURL msg), EvPoolRemove (ID cont)])
           | Inr code \<Rightarrow>
               (if isColdStart then
                  (case Init rp (ee_init env) of
                     Some err \<Rightarrow>
                       (None, Some (''failed to initialize container: '' @ Error_text F err),
                        [EvPoolGet (em_Runtime msg), EvFetchCode (em_CodeURL msg), EvInit (ID cont),
                         EvPoolRemove (ID cont)])
                   | None \<Rightarrow>
                       (case run_phase F rp env msg cont of
                          (result, err, events) \<Rightarrow>
                            (result, err,
                             [EvPoolGet (em_Runtime msg), EvFetchCode (em_CodeURL msg), EvInit (ID cont)]
                               @ events)))
                else
                  (case run_phase F rp env msg cont of
                     (result, err, events) \<Rightarrow>
                       (result, err,
                        [EvPoolGet (em_Runtime msg), EvFetchCode (em_CodeURL msg)] @ events)))))"

section \<open>The queue consumer: \<open>processMessage\<close>\<close>

definition StreamName :: string where "StreamName = ''penguinwhisk:invocations''"
definition GroupName :: string where "GroupName = ''invokers''"
definition ActivationsStream :: string where "ActivationsStream = ''penguinwhisk:activations''"

record ActionSpec =
  as_Namespace :: string
  as_Name :: string
  as_Version :: string

record InvocationMessage =
  im_ActivationID :: string
  im_Action :: ActionSpec
  im_ResponseChannel :: string
  im_Deadline :: int

record Response =
  rsp_StatusCode :: int
  rsp_Success :: bool
  rsp_Result :: "json_map option"
  rsp_Error :: string

record ActivationResult =
  ar_ActivationID :: string
  ar_Namespace :: string
  ar_Name :: string
  ar_Version :: string
  ar_Response :: Response
  ar_Start :: int
  ar_End :: int
  ar_Duration :: int
  ar_Logs :: "string list"

text \<open>
  A stream message is its id and its field map; a field value is a string or something
  else (the type assertion \<open>values["data"].(string)\<close> tells them apart).  The \<open>data\<close>
  field of a published entry is the JSON text of the result; the model keeps the result
  itself in its place.
\<close>

datatype redis_value = RString string | ROther

record XMessage =
  xm_ID :: string
  xm_Values :: "(string \<times> redis_value) list"

record xadd_values =
  xv_activation_id :: string
  xv_namespace :: string
  xv_success :: bool
  xv_data :: ActivationResult

text \<open>
  The consumer's environment: the clock (\<open>time.Now().UnixMilli()\<close>), \<open>json.Unmarshal\<close>
  into an \<open>InvocationMessage\<close>, the handler (it returns the text of its error, or a
  result), whether \<open>json.Marshal\<close> of a result succeeds, and whether \<open>XADD\<close> and
  \<open>XACK\<close> succeed.  The
  consumer's effects are the \<open>redis_event\<close>s it issues, in order; an \<open>XAdd\<close> or \<open>XAck\<close>
  whose flag is \<open>False\<close> failed and changed nothing in Redis.
\<close>

record consumer_env =
  ce_now :: int
  ce_unmarshal :: "string \<Rightarrow> InvocationMessage option"
  ce_handler :: "InvocationMessage \<Rightarrow> string + ActivationResult"
  ce_marshal_ok :: "ActivationResult \<Rightarrow> bool"
  ce_xadd_ok :: bool
  ce_xack_ok :: bool

datatype redis_event =
    EvHandleInvocation InvocationMessage
  | XAdd string xadd_values bool
  | XAck string string string bool

definition parseInvocationMessage ::
  "consumer_env \<Rightarrow> (string \<times> redis_value) list \<Rightarrow> string + InvocationMessage" where
  "parseInvocationMessage env values =
     (case map_of values ''data'' of
        Some (RString data) \<Rightarrow>
          (case ce_unmarshal env data of
             None \<Rightarrow> Inl ''unmarshal invocation message''
           | Some msg \<Rightarrow> Inr msg)
      | _ \<Rightarrow> Inl ''missing or invalid 'data' field'')"

definition publishResult :: "consumer_env \<Rightarrow> ActivationResult \<Rightarrow> string option \<times> redis_event list" where
  "publishResult env result =
     (if \<not> ce_marshal_ok env result then (Some ''marshal result'', [])
      else
        (if ce_xadd_ok env then None else Some ''xadd to activations stream'',
         [XAdd ActivationsStream
            \<lparr>xv_activation_id = ar_ActivationID result, xv_namespace = ar_Namespace result,
             xv_success = rsp_Success (ar_Response result), xv_data = result\<rparr>
            (ce_xadd_ok env)]))"

definition error_result :: "consumer_env \<Rightarrow> InvocationMessage \<Rightarrow> string \<Rightarrow> ActivationResult" where
  \<comment> \<open>the \<open>ActivationResult\<close> literal that \<open>publishErrorResult\<close> and the failure branch of
      \<open>processMessage\<close> both build\<close>
  "error_result env msg errMsg =
     \<lparr>ar_ActivationID = im_ActivationID msg,
      ar_Namespace = as_Namespace (im_Action msg),
      ar_Name = as_Name (im_Action msg),
      ar_Version = as_Version (im_Action msg),
      ar_Response = \<lparr>rsp_StatusCode = 500, rsp_Success = False, rsp_Result = None, rsp_Error = errMsg\<rparr>,
      ar_Start = ce_now env,
      ar_End = ce_now env,
      ar_Duration = 0,
      ar_Logs = []\<rparr>"

definition publishErrorResult :: "consumer_env \<Rightarrow> InvocationMessage \<Rightarrow> string \<Rightarrow> redis_event list" where
  "publishErrorResult env msg errMsg = snd (publishResult env (error_result env msg errMsg))"

definition ackMessage :: "consumer_env \<Rightarrow> string \<Rightarrow> redis_event list" where
  "ackMessage env messageID = [XAck StreamName GroupName messageID (ce_xack_ok env)]"

definition processMessage :: "consumer_env \<Rightarrow> XMessage \<Rightarrow> redis_event list" where
  "processMessage env msg =
     (case parseInvocationMessage env (xm_Values msg) of
        Inl err \<Rightarrow> ackMessage env (xm_ID msg)
      | Inr invMsg \<Rightarrow>
          (if ce_now env > im_Deadline invMsg then
             ackMessage env (xm_ID msg) @ publishErrorResult env invMsg ''Invocation deadline exceeded''
           else
             (let result = (case ce_handler env invMsg of
                              Inl err \<Rightarrow> error_result env invMsg err
                            | Inr r \<Rightarrow> r)
              in [EvHandleInvocation invMsg] @ snd (publishResult env result) @ ackMessage env (xm_ID msg))))"

section \<open>The log collector\<close>

definition LogMarker :: string where
  "LogMarker = ''XXX_THE_END_OF_A_WHISK_ACTIVATION_XXX''"


record LogLine =
  Timestamp :: int
  Stream :: string
  Message :: string

text \<open>
  Three functions of Go's library are used on the text of a frame and are taken as the
  record \<open>textlib\<close>: \<open>strings.TrimSpace\<close>, \<open>time.Parse(time.RFC3339Nano, _)\<close> (\<open>None\<close> is
  its error) and \<open>Time.Format(time.RFC3339Nano)\<close>.
\<close>

record textlib =
  TrimSpace :: "string \<Rightarrow> string"
  time_Parse :: "string \<Rightarrow> int option"
  time_Format :: "int \<Rightarrow> string"

definition SplitN2 :: "string \<Rightarrow> string list" where
  \<comment> \<open>\<open>strings.SplitN(s, " ", 2)\<close>: cut at the first space, if there is one\<close>
  "SplitN2 s =
     (case first_index (\<lambda>c. c = CHR '' '') s of
        None \<Rightarrow> [s]
      | Some i \<Rightarrow> [take i s, drop (Suc i) s])"

definition parseLogLine :: "textlib \<Rightarrow> string \<Rightarrow> char \<Rightarrow> LogLine option" where
  \<comment> \<open>\<open>None\<close> is either of the two errors; the caller does not tell them apart\<close>
  "parseLogLine L line streamType =
     (case SplitN2 (TrimSpace L line) of
        [p0, p1] \<Rightarrow>
          (case time_Parse L p0 of
             None \<Rightarrow> None
           | Some timestamp \<Rightarrow>
               Some \<lparr>Timestamp = timestamp,
                     Stream = (if streamType = CHR 0x02 then ''stderr'' else ''stdout''),
                     Message = p1\<rparr>)
      | _ \<Rightarrow> None)"

definition BigEndian_Uint32 :: "string \<Rightarrow> nat" where
  \<comment> \<open>\<open>binary.BigEndian.Uint32(b)\<close> for a slice of four bytes\<close>
  "BigEndian_Uint32 b =
     ((of_char (b ! 0) * 256 + of_char (b ! 1)) * 256 + of_char (b ! 2)) * 256 + of_char (b ! 3)"

text \<open>
  The reader is the list of bytes it still has to deliver; it delivers them all and then
  reports end of file.  \<open>parseLogs\<close> returns the lines together with the bytes it left
  unread.  \<open>io.ReadFull\<close> on the header gives \<open>io.EOF\<close> (a clean end) when no byte is
  left and an error when one to seven bytes are left; on the payload it gives an error
  when fewer than \<open>size\<close> bytes are left.
\<close>

function parseLogs :: "textlib \<Rightarrow> string \<Rightarrow> LogLine list \<Rightarrow> string + (LogLine list \<times> string)" where
  "parseLogs L reader lines =
     (if reader = [] then Inr (lines, [])
      else if length reader < 8 then Inl ''failed to read log header''
      else
        (let header = take 8 reader;
             streamType = header ! 0;
             size = BigEndian_Uint32 (drop 4 header);
             reader1 = drop 8 reader
         in if length reader1 < size then Inl ''failed to read log message''
            else
              (let message = take size reader1;
                   reader2 = drop size reader1
               in case parseLogLine L message streamType of
                    None \<Rightarrow> parseLogs L reader2 lines
                  | Some logLine \<Rightarrow>
                      (if Contains (Message logLine) LogMarker then Inr (lines @ [logLine], reader2)
                       else parseLogs L reader2 (lines @ [logLine])))))"
  by pat_completeness auto
termination
  by (relation "measure (\<lambda>(L, reader, lines). length reader)") auto

declare parseLogs.simps [simp del]





section \<open>The Warm and Busy sets of the pool\<close>

text \<open>
  The identifiers of the containers held in the warm lists and in the busy map.  The
  pool's bookkeeping is well formed when the keys of both maps are distinct, every busy
  entry is filed under its own container identifier, and no identifier occurs twice in
  the warm lists.

  The container identifiers come from the Docker daemon.  Two facts about the daemon are
  stated as predicates: it never hands out the same identifier twice on one history of
  calls (\<open>docker_ids_unique\<close>), and from the pool's current history on it hands out no
  identifier that the pool already holds (\<open>docker_ids_fresh\<close>).
\<close>

definition warm_all :: "ContainerPool \<Rightarrow> PooledContainer list" where
  "warm_all p = concat (map snd (warmContainers p))"

definition Warm :: "ContainerPool \<Rightarrow> string list" where
  "Warm p = map (\<lambda>pc. ID (Container pc)) (warm_all p)"

definition Busy :: "ContainerPool \<Rightarrow> string list" where
  "Busy p = map (\<lambda>(k, pc). ID (Container pc)) (busyContainers p)"

definition pool_wf :: "ContainerPool \<Rightarrow> bool" where
  "pool_wf p \<longleftrightarrow>
     distinct (map fst (warmContainers p)) \<and> distinct (map fst (busyContainers p))
     \<and> (\<forall>(k, pc) \<in> set (busyContainers p). ID (Container pc) = k)
     \<and> distinct (Warm p)"

definition docker_ids_unique :: "Docker \<Rightarrow> bool" where
  "docker_ids_unique d \<longleftrightarrow>
     (\<forall>h h' r r' c c'. strict_prefix h h' \<and> create_outcome d h r = Inr c \<and> create_outcome d h' r' = Inr c'
        \<longrightarrow> ID c \<noteq> ID c')"

definition docker_ids_fresh :: "Docker \<Rightarrow> ContainerPool \<Rightarrow> bool" where
  "docker_ids_fresh d p \<longleftrightarrow>
     (\<forall>h r c. prefix (manager p) h \<and> create_outcome d h r = Inr c
        \<longrightarrow> ID c \<notin> set (Warm p) \<union> set (Busy p))"

definition pool_inv :: "Docker \<Rightarrow> ContainerPool \<Rightarrow> bool" where
  "pool_inv d p \<longleftrightarrow> pool_wf p \<and> set (Warm p) \<inter> set (Busy p) = {} \<and> docker_ids_fresh d p"

text \<open>
  The containers that a prewarming loop has added for a runtime between two daemon
  histories: each is warm, of that runtime, stamped with the time of the run, not
  initialized for any action, and is the container that the daemon handed out in answer
  to a creation call for that runtime made after the first history and recorded in the
  second.
\<close>

definition prewarmed ::
  "Docker \<Rightarrow> int \<Rightarrow> mgr_call list \<Rightarrow> mgr_call list \<Rightarrow> string \<Rightarrow> PooledContainer list \<Rightarrow> bool" where
  "prewarmed d now before after runtime new \<longleftrightarrow>
     (\<forall>pc \<in> set new.
        Runtime pc = runtime \<and> State pc = PoolStateWarm \<and> LastUsed pc = now
        \<and> InitializedAction pc = []
        \<and> (\<exists>h. prefix before h \<and> prefix (h @ [CallCreate runtime]) after
               \<and> create_outcome d h runtime = Inr (Container pc)))"

section \<open>Concrete scenarios\<close>

text \<open>
  The inputs at which the closed theorems below are evaluated: one invocation of action
  \<open>A\<close> on runtime \<open>nodejs:20\<close>, served by the warm container \<open>c1\<close>, whose \<open>/run\<close>
  answers 200 with a JSON object whose one field is \<open>error\<close>, a string; it has neither a
  \<open>statusCode\<close> nor a \<open>result\<close> field (so \<open>json.Unmarshal\<close> leaves \<open>StatusCode\<close>
  at zero and \<open>Result\<close> at \<open>nil\<close>); and the same invocation as a stream
  message with deadline 5000, processed at a given time by a handler with a given outcome.
  The scenario's \<open>json.Unmarshal\<close> decodes that one body and rejects every other text.
\<close>

definition quoted :: "string \<Rightarrow> string" where
  \<comment> \<open>the text between two double quotes\<close>
  "quoted s = [CHR 0x22] @ s @ [CHR 0x22]"

definition scenario_run_body :: string where
  "scenario_run_body = ''{'' @ quoted ''error'' @ '':'' @ quoted ''nope'' @ ''}''"

definition scenario_code :: string where
  "scenario_code = ''function main() { return {error: '' @ quoted ''nope'' @ ''}; }''"

definition scenario_msg :: exec_msg where
  "scenario_msg =
     \<lparr>em_ActivationID = ''a1'', em_Runtime = ''nodejs:20'', em_CodeURL = ''http://minio/A'',
      em_Binary = False, em_Main = ''main'', em_Parameters = [], em_Namespace = ''guest'',
      em_Action = ''A''\<rparr>"

definition scenario_warm :: exec_env where
  "scenario_warm =
     \<lparr>ee_start = 1000, ee_end = 1005,
      ee_pool_get = Inr (\<lparr>ID = ''c1'', IP = ''10.0.0.2''\<rparr>, False),
      ee_fetch = FetchResponded 200 (Inr scenario_code),
      ee_init = Responded 200 (Some (''{'' @ quoted ''ok'' @ '':true}'')),
      ee_run = Responded 200 (Some scenario_run_body),
      ee_unmarshal = (\<lambda>body. if body = scenario_run_body
                              then Some \<lparr>Result = None, Error = ''nope'', StatusCode = 0\<rparr>
                              else None),
      ee_collect = Inr [],
      ee_publish = None\<rparr>"

definition scenario_fmt :: formatting where
  "scenario_fmt = \<lparr>fmt_int = (\<lambda>i. ''0''), fmt_duration = (\<lambda>t. ''1m0s'')\<rparr>"

definition scenario_invocation :: InvocationMessage where
  "scenario_invocation =
     \<lparr>im_ActivationID = ''a1'',
      im_Action = \<lparr>as_Namespace = ''guest'', as_Name = ''A'', as_Version = ''0.0.1''\<rparr>,
      im_ResponseChannel = [], im_Deadline = 5000\<rparr>"

definition scenario_xmessage :: XMessage where
  "scenario_xmessage = \<lparr>xm_ID = ''1-0'', xm_Values = [(''data'', RString ''{...}'')]\<rparr>"

definition scenario_result :: ActivationResult where
  "scenario_result =
     \<lparr>ar_ActivationID = ''a1'', ar_Namespace = ''guest'', ar_Name = ''A'', ar_Version = ''0.0.1'',
      ar_Response = \<lparr>rsp_StatusCode = 0, rsp_Success = True, rsp_Result = Some [(''hello'', ''world'')],
                     rsp_Error = []\<rparr>,
      ar_Start = 1000, ar_End = 1005, ar_Duration = 5, ar_Logs = []\<rparr>"

definition scenario_consumer :: "int \<Rightarrow> string + ActivationResult \<Rightarrow> bool \<Rightarrow> consumer_env" where
  "scenario_consumer now outcome xadd_ok =
     \<lparr>ce_now = now,
      ce_unmarshal = (\<lambda>data. Some scenario_invocation),
      ce_handler = (\<lambda>m. outcome),
      ce_marshal_ok = (\<lambda>r. True),
      ce_xadd_ok = xadd_ok,
      ce_xack_ok = True\<rparr>"

text \<open>
  For the log collector: a \<open>textlib\<close> that trims ASCII white space and that knows one
  timestamp, \<open>2024-01-01T00:00:00Z\<close>, on which it agrees with Go's \<open>time.Parse\<close> and
  \<open>Format\<close>; it rejects every other string.
\<close>

definition trim_ascii :: "string \<Rightarrow> string" where
  "trim_ascii s =
     (let sp = (\<lambda>c. c \<in> set [CHR 0x09, CHR 0x0A, CHR 0x0B, CHR 0x0C, CHR 0x0D, CHR '' ''])
      in rev (dropWhile sp (rev (dropWhile sp s))))"

definition scenario_textlib :: textlib where
  "scenario_textlib =
     \<lparr>TrimSpace = trim_ascii,
      time_Parse = (\<lambda>s. if s = ''2024-01-01T00:00:00Z'' then Some 1704067200000000000 else None),
      time_Format = (\<lambda>t. ''2024-01-01T00:00:00Z'')\<rparr>"

definition scenario_docker :: "string list \<Rightarrow> Docker" where
  "scenario_docker failing =
     \<lparr>create_outcome = (\<lambda>h r. Inr \<lparr>ID = ''new'' @ replicate (length h) (CHR ''+''), IP = []\<rparr>),
      remove_outcome = (\<lambda>h i. if i \<in> set failing then Some ''removal failed'' else None)\<rparr>"


definition scenario_A :: PooledContainer where
  "scenario_A = \<lparr>Container = \<lparr>ID = ''c1'', IP = ''10.0.0.2''\<rparr>, Runtime = ''nodejs:20'',
                  State = PoolStateWarm, LastUsed = 5, InitializedAction = ''A''\<rparr>"

definition scenario_B :: PooledContainer where
  "scenario_B = \<lparr>Container = \<lparr>ID = ''c2'', IP = ''10.0.0.3''\<rparr>, Runtime = ''python:3.12'',
                  State = PoolStateWarm, LastUsed = 3, InitializedAction = ''B''\<rparr>"

definition scenario_C :: PooledContainer where
  "scenario_C = \<lparr>Container = \<lparr>ID = ''c3'', IP = ''10.0.0.4''\<rparr>, Runtime = ''nodejs:20'',
                  State = PoolStateBusy, LastUsed = 7, InitializedAction = ''C''\<rparr>"

definition scenario_full_pool :: ContainerPool where
  "scenario_full_pool =
     \<lparr>manager = [],
      warmContainers = [(''nodejs:20'', [scenario_A]), (''python:3.12'', [scenario_B])],
      busyContainers = [(''c3'', scenario_C)],
      prewarmConfig = [(''nodejs:20'', 2)],
      maxPoolSize = 2, idleTimeout = 600, cleanupInterval = 60\<rparr>"

definition scenario_empty_pool :: ContainerPool where
  "scenario_empty_pool =
     \<lparr>manager = [], warmContainers = [], busyContainers = [],
      prewarmConfig = [(''nodejs:20'', 2)],
      maxPoolSize = 1, idleTimeout = 600, cleanupInterval = 60\<rparr>"

definition scenario_stem :: "string \<Rightarrow> PooledContainer" where
  "scenario_stem cid = \<lparr>Container = \<lparr>ID = cid, IP = []\<rparr>, Runtime = ''nodejs:20'',
                  State = PoolStateWarm, LastUsed = 0, InitializedAction = []\<rparr>"

section \<open>Properties of the pool\<close>

lemma first_index_None: "first_index P xs = None \<longleftrightarrow> (\<forall>x \<in> set xs. \<not> P x)"
  by (induction xs) auto

lemma first_index_Some:
  "first_index P xs = Some i \<Longrightarrow> i < length xs \<and> P (xs ! i) \<and> (\<forall>j < i. \<not> P (xs ! j))"
proof (induction xs arbitrary: i)
  case Nil
  then show ?case by simp
next
  case (Cons x xs)
  show ?case
  proof (cases "P x")
    case True
    with Cons.prems show ?thesis by simp
  next
    case False
    with Cons.prems obtain k where k: "first_index P xs = Some k" "i = Suc k"
      by auto
    from Cons.IH [OF k(1)] False k(2) show ?thesis
      by (auto simp: nth_Cons split: nat.splits)
  qed
qed

text \<open>
  C1 (as stated, refuted).  The pool holds one warm container \<open>c1\<close> of runtime
  \<open>nodejs:20\<close> that was initialized for action \<open>A\<close>.  A request for action \<open>B\<close> on the
  same runtime is served from the warm pool with that very container: it is not a stem
  cell, and its \<open>InitializedAction\<close> changes from \<open>A\<close> to \<open>B\<close>.  The daemon is never
  asked to create anything.
\<close>

theorem C1_reissue_counterexample:
  "fst (GetContainer \<lparr>create_outcome = (\<lambda>h r. Inl ''unused''), remove_outcome = (\<lambda>h i. None)\<rparr> 7
          ''nodejs:20'' ''B''
          \<lparr>manager = [],
           warmContainers = [(''nodejs:20'',
              [\<lparr>Container = \<lparr>ID = ''c1'', IP = ''10.0.0.2''\<rparr>, Runtime = ''nodejs:20'',
                State = PoolStateWarm, LastUsed = 3, InitializedAction = ''A''\<rparr>])],
           busyContainers = [], prewarmConfig = [], maxPoolSize = 4,
           idleTimeout = 0, cleanupInterval = 0\<rparr>)
   = Inr \<lparr>Container = \<lparr>ID = ''c1'', IP = ''10.0.0.2''\<rparr>, Runtime = ''nodejs:20'',
          State = PoolStateBusy, LastUsed = 7, InitializedAction = ''B''\<rparr>"
  by (simp add: GetContainer_def take_initialized_def take_matching_runtime_def Let_def)

text \<open>
  Which warm container \<open>GetContainer\<close> hands out, branch by branch.
\<close>

lemma GetContainer_second_branch:
  assumes "map_of (warmContainers p) runtime = Some containers"
    and "containers \<noteq> []"
    and "first_index (\<lambda>pc. InitializedAction pc = action \<and> State pc = PoolStateWarm) containers = None"
  shows "GetContainer d now runtime action p =
           (Inr ((last containers)\<lparr>State := PoolStateBusy, LastUsed := now, InitializedAction := action\<rparr>),
            p\<lparr>warmContainers := AList.update runtime (butlast containers) (warmContainers p),
              busyContainers := AList.update (ID (Container (last containers)))
                  ((last containers)\<lparr>State := PoolStateBusy, LastUsed := now, InitializedAction := action\<rparr>)
                  (busyContainers p)\<rparr>)"
proof -
  have l: "containers ! (length containers - 1) = last containers"
    using assms(2) by (simp add: last_conv_nth)
  have b: "take (length containers - 1) containers = butlast containers"
    by (simp add: butlast_conv_take)
  show ?thesis
    using assms l b
    by (simp add: GetContainer_def take_initialized_def take_matching_runtime_def Let_def)
qed

lemma GetContainer_first_branch:
  assumes "map_of (warmContainers p) runtime = Some containers"
    and "first_index (\<lambda>pc. InitializedAction pc = action \<and> State pc = PoolStateWarm) containers = Some i"
  shows "GetContainer d now runtime action p =
           (Inr ((containers ! i)\<lparr>State := PoolStateBusy, LastUsed := now\<rparr>),
            p\<lparr>warmContainers := AList.update runtime (remove_at i containers) (warmContainers p),
              busyContainers := AList.update (ID (Container (containers ! i)))
                  ((containers ! i)\<lparr>State := PoolStateBusy, LastUsed := now\<rparr>) (busyContainers p)\<rparr>)"
  using assms by (simp add: GetContainer_def take_initialized_def Let_def)

text \<open>
  C1 (amended).  Let the requested runtime have a non-empty warm list.  If some container
  of the list is warm and initialized for the requested action, the first such container
  is handed out and its \<open>InitializedAction\<close> stays what it was.  Otherwise the last
  container of the list is handed out, whatever its \<open>InitializedAction\<close> was (empty or
  another action), and its \<open>InitializedAction\<close> is overwritten with the requested action.
  In both cases the container is marked busy and the daemon is not called.
\<close>

theorem C1_GetContainer_warm_selection:
  assumes "map_of (warmContainers p) runtime = Some containers"
    and "containers \<noteq> []"
  shows "\<exists>pc p'. GetContainer d now runtime action p = (Inr pc, p')
           \<and> manager p' = manager p
           \<and> State pc = PoolStateBusy \<and> LastUsed pc = now \<and> InitializedAction pc = action
           \<and> (case first_index (\<lambda>c. InitializedAction c = action \<and> State c = PoolStateWarm) containers of
                 Some i \<Rightarrow> i < length containers
                     \<and> pc = (containers ! i)\<lparr>State := PoolStateBusy, LastUsed := now\<rparr>
                     \<and> InitializedAction (containers ! i) = action
                     \<and> map_of (warmContainers p') runtime = Some (remove_at i containers)
               | None \<Rightarrow> pc = (last containers)\<lparr>State := PoolStateBusy, LastUsed := now, InitializedAction := action\<rparr>
                     \<and> map_of (warmContainers p') runtime = Some (butlast containers))"
proof (cases "first_index (\<lambda>c. InitializedAction c = action \<and> State c = PoolStateWarm) containers")
  case None
  from GetContainer_second_branch [OF assms None, of d now] None show ?thesis
    by (simp add: update_conv')
next
  case (Some i)
  from first_index_Some [OF Some]
  have "i < length containers" "InitializedAction (containers ! i) = action"
    by simp_all
  with GetContainer_first_branch [OF assms(1) Some, of d now] Some show ?thesis
    by (simp add: update_conv')
qed

theorem C1_GetContainer_warm_selection_witness:
  "\<exists>pc p'. GetContainer \<lparr>create_outcome = (\<lambda>h r. Inl ''unused''), remove_outcome = (\<lambda>h i. None)\<rparr> 7
          ''nodejs:20'' ''B''
          \<lparr>manager = [],
           warmContainers = [(''nodejs:20'',
              [\<lparr>Container = \<lparr>ID = ''c1'', IP = ''10.0.0.2''\<rparr>, Runtime = ''nodejs:20'',
                State = PoolStateWarm, LastUsed = 3, InitializedAction = ''A''\<rparr>])],
           busyContainers = [], prewarmConfig = [], maxPoolSize = 4,
           idleTimeout = 0, cleanupInterval = 0\<rparr> = (Inr pc, p')
     \<and> manager p' = []
     \<and> pc = \<lparr>Container = \<lparr>ID = ''c1'', IP = ''10.0.0.2''\<rparr>, Runtime = ''nodejs:20'',
             State = PoolStateBusy, LastUsed = 7, InitializedAction = ''B''\<rparr>
     \<and> map_of (warmContainers p') ''nodejs:20'' = Some []"
  using C1_GetContainer_warm_selection [of
      "\<lparr>manager = [],
           warmContainers = [(''nodejs:20'',
              [\<lparr>Container = \<lparr>ID = ''c1'', IP = ''10.0.0.2''\<rparr>, Runtime = ''nodejs:20'',
                State = PoolStateWarm, LastUsed = 3, InitializedAction = ''A''\<rparr>])],
           busyContainers = [], prewarmConfig = [], maxPoolSize = 4,
           idleTimeout = 0, cleanupInterval = 0\<rparr>"
      "''nodejs:20''"
      "[\<lparr>Container = \<lparr>ID = ''c1'', IP = ''10.0.0.2''\<rparr>, Runtime = ''nodejs:20'',
                State = PoolStateWarm, LastUsed = 3, InitializedAction = ''A''\<rparr>]"
      "\<lparr>create_outcome = (\<lambda>h r. Inl ''unused''), remove_outcome = (\<lambda>h i. None)\<rparr>" 7 "''B''"]
  by simp

subsection \<open>Prewarming twice\<close>


lemma go_int_range: "- (2 ^ 63) \<le> go_int x" "go_int x < 2 ^ 63"
  by (simp_all add: go_int_def)



lemma go_int_small [simp]: "go_int 0 = 0" "go_int 1 = 1" "go_int 2 = 2"
  by (simp_all add: go_int_def)





lemma prewarmed_Nil [simp]: "prewarmed d now h0 h1 k []"
  by (simp add: prewarmed_def)




lemma warm_slice_manager [simp]: "warm_slice (p\<lparr>manager := m\<rparr>) k = warm_slice p k"
  by (simp add: warm_slice_def)

lemma prewarmConfig_add_warm [simp]: "prewarmConfig (add_warm pc p) = prewarmConfig p"
  by (simp add: add_warm_def)

lemma manager_add_warm [simp]: "manager (add_warm pc p) = manager p"
  by (simp add: add_warm_def)

lemma add_warm_others:
  "add_warm pc p = p\<lparr>warmContainers := warmContainers (add_warm pc p)\<rparr>"
  by (simp add: add_warm_def)








lemma scenario_prewarm:
  "PrewarmContainers (scenario_docker []) 0 scenario_empty_pool =
     (None, scenario_empty_pool
        \<lparr>manager := [CallCreate ''nodejs:20'', CallCreate ''nodejs:20''],
         warmContainers := [(''nodejs:20'', [scenario_stem ''new'', scenario_stem ''new+''])]\<rparr>)"
  by (simp add: PrewarmContainers_def scenario_empty_pool_def scenario_docker_def stem_cells_def
      warm_slice_def Let_def numeral_2_eq_2 mgr_CreateContainer_def add_warm_def scenario_stem_def)


subsection \<open>Returning a container to a full pool\<close>

lemma foldl_older_Some:
  "\<exists>m. foldl older (Some a) xs = Some m \<and> m \<in> set (a # xs)
       \<and> (\<forall>x \<in> set (a # xs). LastUsed (snd (snd m)) \<le> LastUsed (snd (snd x)))"
proof (induction xs arbitrary: a)
  case Nil
  show ?case by simp
next
  case (Cons x xs)
  obtain r0 i0 pc0 where a: "a = (r0, i0, pc0)" by (cases a)
  obtain r i pc where x: "x = (r, i, pc)" by (cases x)
  show ?case
  proof (cases "LastUsed pc < LastUsed pc0")
    case True
    from Cons.IH [of x] obtain m where m: "foldl older (Some x) xs = Some m" "m \<in> set (x # xs)"
      "\<forall>y \<in> set (x # xs). LastUsed (snd (snd m)) \<le> LastUsed (snd (snd y))"
      by blast
    from m(3) x True have "LastUsed (snd (snd m)) \<le> LastUsed (snd (snd a))"
      using a by fastforce
    with m True a x show ?thesis by auto
  next
    case False
    from Cons.IH [of a] obtain m where m: "foldl older (Some a) xs = Some m" "m \<in> set (a # xs)"
      "\<forall>y \<in> set (a # xs). LastUsed (snd (snd m)) \<le> LastUsed (snd (snd y))"
      by blast
    from m(3) False a x have "LastUsed (snd (snd m)) \<le> LastUsed (snd (snd x))"
      by fastforce
    with m False a x show ?thesis by auto
  qed
qed

lemma find_oldest_None: "find_oldest p = None \<longleftrightarrow> warm_entries p = []"
proof (cases "warm_entries p")
  case Nil
  then show ?thesis by (simp add: find_oldest_def)
next
  case (Cons a xs)
  with foldl_older_Some [of a xs] show ?thesis
    by (auto simp: find_oldest_def)
qed

lemma find_oldest_Some:
  assumes "find_oldest p = Some e"
  shows "e \<in> set (warm_entries p)
       \<and> (\<forall>x \<in> set (warm_entries p). LastUsed (snd (snd e)) \<le> LastUsed (snd (snd x)))"
proof (cases "warm_entries p")
  case Nil
  with assms show ?thesis by (simp add: find_oldest_def)
next
  case (Cons a xs)
  with foldl_older_Some [of a xs] assms show ?thesis
    by (auto simp: find_oldest_def)
qed

lemma warm_entries_mem:
  "(rt, i, pc) \<in> set (warm_entries p) \<longleftrightarrow>
     (\<exists>cs. (rt, cs) \<in> set (warmContainers p) \<and> i < length cs \<and> cs ! i = pc)"
proof
  assume "(rt, i, pc) \<in> set (warm_entries p)"
  then obtain r cs where rc: "(r, cs) \<in> set (warmContainers p)"
    "(rt, i, pc) \<in> (\<lambda>(i, pc). (r, i, pc)) ` set (enumerate 0 cs)"
    by (auto simp: warm_entries_def)
  then have "r = rt" "(i, pc) \<in> set (enumerate 0 cs)"
    by auto
  with rc(1) show "\<exists>cs. (rt, cs) \<in> set (warmContainers p) \<and> i < length cs \<and> cs ! i = pc"
    by (auto simp: in_set_enumerate_eq)
next
  assume "\<exists>cs. (rt, cs) \<in> set (warmContainers p) \<and> i < length cs \<and> cs ! i = pc"
  then obtain cs where cs: "(rt, cs) \<in> set (warmContainers p)" "i < length cs" "cs ! i = pc"
    by blast
  then have "(i, pc) \<in> set (enumerate 0 cs)"
    by (simp add: in_set_enumerate_eq)
  then have "(rt, i, pc) \<in> (\<lambda>(i, pc). (rt, i, pc)) ` set (enumerate 0 cs)"
    by force
  with cs(1) show "(rt, i, pc) \<in> set (warm_entries p)"
    unfolding warm_entries_def by force
qed

lemma warm_entries_slice:
  assumes "distinct (map fst (warmContainers p))" and "(rt, i, pc) \<in> set (warm_entries p)"
  shows "i < length (warm_slice p rt) \<and> warm_slice p rt ! i = pc"
proof -
  from assms(2) obtain cs where cs: "(rt, cs) \<in> set (warmContainers p)" "i < length cs" "cs ! i = pc"
    by (auto simp: warm_entries_mem)
  from assms(1) cs(1) have "map_of (warmContainers p) rt = Some cs"
    by simp
  with cs show ?thesis by (simp add: warm_slice_def)
qed

lemma busy_mgr_RemoveContainer [simp]:
  "busyContainers (snd (mgr_RemoveContainer d i p)) = busyContainers p"
  by (simp add: mgr_RemoveContainer_def)

lemma busy_removeOldestContainer [simp]:
  "busyContainers (snd (removeOldestContainer d p)) = busyContainers p"
  by (simp add: removeOldestContainer_def split: option.splits prod.splits)

lemma busy_add_warm [simp]: "busyContainers (add_warm pc p) = busyContainers p"
  by (simp add: add_warm_def)

lemma ReturnContainer_clears_busy:
  "map_of (busyContainers (snd (ReturnContainer d now containerID reuse p))) containerID = None"
proof (cases "map_of (busyContainers p) containerID")
  case None
  then show ?thesis by (simp add: ReturnContainer_def)
next
  case (Some pc)
  let ?p1 = "p\<lparr>busyContainers := AList.delete containerID (busyContainers p)\<rparr>"
  have d: "map_of (busyContainers ?p1) containerID = None"
    by (simp add: delete_conv')
  obtain e p2 where rm: "removeOldestContainer d ?p1 = (e, p2)"
    by (cases "removeOldestContainer d ?p1")
  with busy_removeOldestContainer [of d ?p1] have b2: "busyContainers p2 = busyContainers ?p1"
    by simp
  show ?thesis
    using Some d rm b2
    by (cases e) (simp_all add: ReturnContainer_def Let_def)
qed

text \<open>
  C6 (as stated, refuted).  The pool is at its cap of two warm containers, the oldest
  being \<open>c2\<close>, and the busy container \<open>c3\<close> is returned for reuse.  The daemon fails to
  remove \<open>c2\<close>.  The call returns no error, \<open>c2\<close> has left the warm list all the same,
  and \<open>c3\<close> is not inserted as warm: it is removed at the daemon instead.
\<close>

theorem C6_failed_eviction_counterexample:
  "map_of (busyContainers scenario_full_pool) ''c3'' = Some scenario_C
   \<and> totalWarm scenario_full_pool \<ge> maxPoolSize scenario_full_pool
   \<and> ReturnContainer (scenario_docker [''c2'']) 9 ''c3'' True scenario_full_pool =
       (None, scenario_full_pool
          \<lparr>manager := [CallRemove ''c2'', CallRemove ''c3''],
           warmContainers := [(''nodejs:20'', [scenario_A]), (''python:3.12'', [])],
           busyContainers := []\<rparr>)"
  by (simp add: ReturnContainer_def removeOldestContainer_def
      mgr_RemoveContainer_def Let_def totalWarm_def warm_slice_def scenario_docker_def
      find_oldest_def warm_entries_def
      scenario_full_pool_def scenario_B_def scenario_A_def scenario_C_def remove_at_def)

text \<open>
  C6 (amended).  A busy container is returned for reuse while the number of warm
  containers is at least \<open>maxPoolSize\<close>.  If there is no warm container at all, the
  returned container is removed at the daemon.  Otherwise the warm container with the
  least \<open>LastUsed\<close> over all runtimes is taken out of its warm list and its removal is
  requested from the daemon; if that removal succeeds, the returned container is appended
  to the warm list of its runtime with state warm and \<open>LastUsed\<close> set to the current
  time; if it fails, the returned container is removed at the daemon instead.  Whatever
  the arguments of \<open>ReturnContainer\<close>, the busy map has no entry for the container
  afterwards.
\<close>

theorem C6_Return_evicts_oldest:
  assumes "map_of (busyContainers p) containerID = Some pc"
    and "totalWarm p \<ge> maxPoolSize p"
    and "distinct (map fst (warmContainers p))"
    and "p1 = p\<lparr>busyContainers := AList.delete containerID (busyContainers p)\<rparr>"
  shows "(case find_oldest p of
            None \<Rightarrow>
              warm_entries p = []
              \<and> ReturnContainer d now containerID True p =
                  (remove_outcome d (manager p) containerID, p1\<lparr>manager := manager p @ [CallRemove containerID]\<rparr>)
          | Some (rt, i, oldest) \<Rightarrow>
              i < length (warm_slice p rt) \<and> warm_slice p rt ! i = oldest
              \<and> (\<forall>(r, j, c) \<in> set (warm_entries p). LastUsed oldest \<le> LastUsed c)
              \<and> (let evicted = p1\<lparr>warmContainers := AList.update rt (remove_at i (warm_slice p rt)) (warmContainers p),
                                    manager := manager p @ [CallRemove (ID (Container oldest))]\<rparr>
                 in case remove_outcome d (manager p) (ID (Container oldest)) of
                      None \<Rightarrow>
                        ReturnContainer d now containerID True p =
                          (None, add_warm (pc\<lparr>State := PoolStateWarm, LastUsed := now\<rparr>) evicted)
                    | Some err \<Rightarrow>
                        ReturnContainer d now containerID True p =
                          (remove_outcome d (manager evicted) containerID,
                           evicted\<lparr>manager := manager evicted @ [CallRemove containerID]\<rparr>)))
       \<and> (\<forall>d' now' cid reuse q.
            map_of (busyContainers (snd (ReturnContainer d' now' cid reuse q))) cid = None)"
proof -
  have tw: "totalWarm p1 = totalWarm p" "maxPoolSize p1 = maxPoolSize p"
    "find_oldest p1 = find_oldest p" "warm_slice p1 = warm_slice p" "manager p1 = manager p"
    "warmContainers p1 = warmContainers p"
    by (simp_all add: assms(4) totalWarm_def find_oldest_def warm_entries_def warm_slice_def fun_eq_iff)
  have R: "ReturnContainer d now containerID True p =
      (case removeOldestContainer d p1 of
         (Some err, p2) \<Rightarrow> mgr_RemoveContainer d containerID p2
       | (None, p2) \<Rightarrow> (None, add_warm (pc\<lparr>State := PoolStateWarm, LastUsed := now\<rparr>) p2))"
    using assms(1,2) tw(1,2) by (simp add: ReturnContainer_def Let_def assms(4) [symmetric])
  have main: "(case find_oldest p of
            None \<Rightarrow>
              warm_entries p = []
              \<and> ReturnContainer d now containerID True p =
                  (remove_outcome d (manager p) containerID, p1\<lparr>manager := manager p @ [CallRemove containerID]\<rparr>)
          | Some (rt, i, oldest) \<Rightarrow>
              i < length (warm_slice p rt) \<and> warm_slice p rt ! i = oldest
              \<and> (\<forall>(r, j, c) \<in> set (warm_entries p). LastUsed oldest \<le> LastUsed c)
              \<and> (let evicted = p1\<lparr>warmContainers := AList.update rt (remove_at i (warm_slice p rt)) (warmContainers p),
                                    manager := manager p @ [CallRemove (ID (Container oldest))]\<rparr>
                 in case remove_outcome d (manager p) (ID (Container oldest)) of
                      None \<Rightarrow>
                        ReturnContainer d now containerID True p =
                          (None, add_warm (pc\<lparr>State := PoolStateWarm, LastUsed := now\<rparr>) evicted)
                    | Some err \<Rightarrow>
                        ReturnContainer d now containerID True p =
                          (remove_outcome d (manager evicted) containerID,
                           evicted\<lparr>manager := manager evicted @ [CallRemove containerID]\<rparr>)))"
  proof (cases "find_oldest p")
    case None
    then have "warm_entries p = []" by (simp add: find_oldest_None)
    with None R tw show ?thesis
      by (simp add: removeOldestContainer_def mgr_RemoveContainer_def)
  next
    case (Some e)
    obtain rt i oldest where e: "e = (rt, i, oldest)" by (cases e)
    from find_oldest_Some [OF Some] e
    have mem: "(rt, i, oldest) \<in> set (warm_entries p)"
      and least: "\<forall>x \<in> set (warm_entries p). LastUsed oldest \<le> LastUsed (snd (snd x))"
      by simp_all
    from warm_entries_slice [OF assms(3) mem]
    have idx: "i < length (warm_slice p rt)" "warm_slice p rt ! i = oldest"
      by simp_all
    from least have least': "\<forall>(r, j, c) \<in> set (warm_entries p). LastUsed oldest \<le> LastUsed c"
      by auto
    show ?thesis
      using Some e idx least' R tw
      by (cases "remove_outcome d (manager p) (ID (Container oldest))")
        (simp_all add: removeOldestContainer_def mgr_RemoveContainer_def Let_def)
  qed
  from main ReturnContainer_clears_busy show ?thesis
    by blast
qed

lemma scenario_find_oldest:
  "find_oldest scenario_full_pool = Some (''python:3.12'', 0, scenario_B)"
  by (simp add: find_oldest_def warm_entries_def scenario_full_pool_def scenario_A_def scenario_B_def)

text \<open>
  The same full pool with a daemon that removes what it is asked to: \<open>c2\<close> is evicted
  and \<open>c3\<close> joins the warm list of \<open>nodejs:20\<close> with \<open>LastUsed = 9\<close>.
\<close>

theorem C6_Return_evicts_oldest_witness:
  "map_of (busyContainers scenario_full_pool) ''c3'' = Some scenario_C
   \<and> totalWarm scenario_full_pool \<ge> maxPoolSize scenario_full_pool
   \<and> distinct (map fst (warmContainers scenario_full_pool))
   \<and> find_oldest scenario_full_pool = Some (''python:3.12'', 0, scenario_B)
   \<and> LastUsed scenario_B = 3
   \<and> map (\<lambda>(r, j, c). LastUsed c) (warm_entries scenario_full_pool) = [5, 3]
   \<and> ReturnContainer (scenario_docker []) 9 ''c3'' True scenario_full_pool =
       (None, scenario_full_pool
          \<lparr>manager := [CallRemove ''c2''],
           warmContainers := [(''nodejs:20'', [scenario_A, scenario_C\<lparr>State := PoolStateWarm, LastUsed := 9\<rparr>]),
                              (''python:3.12'', [])],
           busyContainers := []\<rparr>)
   \<and> map_of (busyContainers (snd (ReturnContainer (scenario_docker []) 9 ''c3'' True scenario_full_pool))) ''c3'' = None"
proof -
  have b: "map_of (busyContainers scenario_full_pool) ''c3'' = Some scenario_C"
    by (simp add: scenario_full_pool_def)
  have t: "totalWarm scenario_full_pool \<ge> maxPoolSize scenario_full_pool"
    by (simp add: totalWarm_def scenario_full_pool_def)
  have k: "distinct (map fst (warmContainers scenario_full_pool))"
    by (simp add: scenario_full_pool_def)
  note T = C6_Return_evicts_oldest [OF b t k refl, of "scenario_docker []" 9]
  have r: "remove_outcome (scenario_docker []) h i = None" for h i
    by (simp add: scenario_docker_def)
  have 1: "LastUsed scenario_B = 3"
    "map (\<lambda>(r, j, c). LastUsed c) (warm_entries scenario_full_pool) = [5, 3]"
    by (simp_all add: warm_entries_def scenario_full_pool_def scenario_A_def scenario_B_def)
  from T have 2: "ReturnContainer (scenario_docker []) 9 ''c3'' True scenario_full_pool =
       (None, add_warm (scenario_C\<lparr>State := PoolStateWarm, LastUsed := 9\<rparr>)
          (scenario_full_pool
             \<lparr>busyContainers := AList.delete ''c3'' (busyContainers scenario_full_pool),
              warmContainers := AList.update ''python:3.12'' (remove_at 0 (warm_slice scenario_full_pool ''python:3.12''))
                 (warmContainers scenario_full_pool),
              manager := manager scenario_full_pool @ [CallRemove (ID (Container scenario_B))]\<rparr>))"
    and 3: "map_of (busyContainers (snd (ReturnContainer (scenario_docker []) 9 ''c3'' True scenario_full_pool))) ''c3'' = None"
    by (simp_all add: scenario_find_oldest Let_def r delete_conv')
  have e: "add_warm (scenario_C\<lparr>State := PoolStateWarm, LastUsed := 9\<rparr>)
          (scenario_full_pool
             \<lparr>busyContainers := AList.delete ''c3'' (busyContainers scenario_full_pool),
              warmContainers := AList.update ''python:3.12'' (remove_at 0 (warm_slice scenario_full_pool ''python:3.12''))
                 (warmContainers scenario_full_pool),
              manager := manager scenario_full_pool @ [CallRemove (ID (Container scenario_B))]\<rparr>)
     = scenario_full_pool
          \<lparr>manager := [CallRemove ''c2''],
           warmContainers := [(''nodejs:20'', [scenario_A, scenario_C\<lparr>State := PoolStateWarm, LastUsed := 9\<rparr>]),
                              (''python:3.12'', [])],
           busyContainers := []\<rparr>"
    by (simp add: add_warm_def warm_slice_def scenario_full_pool_def remove_at_def scenario_B_def scenario_C_def)
  from b t k 1 2 3 show ?thesis
    unfolding e by (simp add: scenario_find_oldest)
qed

subsection \<open>The Warm/Busy partition and the cap\<close>

lemma concat_update:
  "\<exists>A B. concat (map snd al) = A @ (case map_of al k of None \<Rightarrow> [] | Some v \<Rightarrow> v) @ B
        \<and> (\<forall>v'. concat (map snd (AList.update k v' al)) = A @ v' @ B)"
proof (induction al)
  case Nil
  show ?case by simp
next
  case (Cons e al)
  obtain k0 v0 where e: "e = (k0, v0)" by (cases e)
  show ?case
  proof (cases "k0 = k")
    case True
    have "concat (map snd (e # al)) = [] @ v0 @ concat (map snd al)"
      "\<forall>v'. concat (map snd (AList.update k v' (e # al))) = [] @ v' @ concat (map snd al)"
      using e True by simp_all
    with e True show ?thesis
      by (metis (mono_tags, lifting) map_of_Cons_code(2) option.simps(5))
  next
    case False
    from Cons.IH obtain A B where
      AB: "concat (map snd al) = A @ (case map_of al k of None \<Rightarrow> [] | Some v \<Rightarrow> v) @ B"
      "\<forall>v'. concat (map snd (AList.update k v' al)) = A @ v' @ B"
      by blast
    have "concat (map snd (e # al)) = (v0 @ A) @ (case map_of (e # al) k of None \<Rightarrow> [] | Some v \<Rightarrow> v) @ B"
      using e False AB(1) by simp
    moreover have "\<forall>v'. concat (map snd (AList.update k v' (e # al))) = (v0 @ A) @ v' @ B"
      using e False AB(2) by simp
    ultimately show ?thesis by blast
  qed
qed

lemma warm_all_update:
  "\<exists>A B. warm_all p = A @ warm_slice p k @ B
        \<and> (\<forall>cs. warm_all (p\<lparr>warmContainers := AList.update k cs (warmContainers p)\<rparr>) = A @ cs @ B)"
  using concat_update [of "warmContainers p" k]
  by (simp add: warm_all_def warm_slice_def)

lemma totalWarm_length: "totalWarm p = int (length (warm_all p))"
proof -
  have "sum_list (map (\<lambda>(runtime, containers). int (length containers)) al) = int (length (concat (map snd al)))"
    for al :: "(string \<times> PooledContainer list) list"
    by (induction al) auto
  then show ?thesis by (simp add: totalWarm_def warm_all_def)
qed


lemma subseq_subset: "subseq xs ys \<Longrightarrow> set xs \<subseteq> set ys"
proof
  fix x assume "subseq xs ys" "x \<in> set xs"
  then show "x \<in> set ys"
    by (rule list_emb_set) simp
qed

lemma subseq_distinct: "subseq xs ys \<Longrightarrow> distinct ys \<Longrightarrow> distinct xs"
proof (induction ys arbitrary: xs)
  case Nil
  from Nil(1) have "xs = []" by (rule list_emb_Nil2)
  then show ?case by simp
next
  case (Cons y ys)
  show ?case
  proof (cases xs)
    case Nil
    then show ?thesis by simp
  next
    case (Cons x xs')
    show ?thesis
    proof (cases "x = y")
      case True
      with Cons.prems \<open>xs = x # xs'\<close> have s: "subseq xs' ys" by simp
      with Cons.IH Cons.prems have "distinct xs'" by simp
      moreover from subseq_subset [OF s] Cons.prems have "y \<notin> set xs'" by auto
      ultimately show ?thesis using True \<open>xs = x # xs'\<close> by simp
    next
      case False
      with Cons.prems \<open>xs = x # xs'\<close> have "subseq xs ys"
        by (simp add: subseq_Cons2_neq)
      with Cons.IH Cons.prems show ?thesis by simp
    qed
  qed
qed

lemma subseq_remove_at: "subseq (remove_at i cs) cs"
proof -
  have "suffix (drop 1 (drop i cs)) (drop i cs)"
    by (rule suffix_drop)
  then have d: "subseq (drop (Suc i) cs) (drop i cs)"
    by (simp add: suffix_imp_subseq)
  have t: "subseq (take i cs) (take i cs)"
    by simp
  from list_emb_append_mono [OF t d]
  have "subseq (remove_at i cs) (take i cs @ drop i cs)"
    by (simp only: remove_at_def)
  then show ?thesis by simp
qed

lemma set_update_subset: "set (AList.update k v al) \<subseteq> insert (k, v) (set al)"
  by (induction al) auto

lemma subseq_take_self: "subseq (take n cs) cs"
  by (rule prefix_imp_subseq) (simp add: take_is_prefix)

lemma subseq_drop_stem_cells: "subseq (drop_stem_cells n cs) cs"
  by (induction n cs rule: drop_stem_cells.induct) auto

text \<open>Fields the abstractions do not read.\<close>

lemma Warm_simps [simp]:
  "Warm (p\<lparr>manager := m\<rparr>) = Warm p"
  "Warm (p\<lparr>busyContainers := b\<rparr>) = Warm p"
  "Warm (p\<lparr>prewarmConfig := c\<rparr>) = Warm p"
  by (simp_all add: Warm_def warm_all_def)

lemma Busy_simps [simp]:
  "Busy (p\<lparr>manager := m\<rparr>) = Busy p"
  "Busy (p\<lparr>warmContainers := w\<rparr>) = Busy p"
  "Busy (p\<lparr>prewarmConfig := c\<rparr>) = Busy p"
  by (simp_all add: Busy_def)

lemma warm_slice_simps [simp]:
  "warm_slice (p\<lparr>manager := m\<rparr>) = warm_slice p"
  "warm_slice (p\<lparr>busyContainers := b\<rparr>) = warm_slice p"
  "warm_slice (p\<lparr>prewarmConfig := c\<rparr>) = warm_slice p"
  by (simp_all add: warm_slice_def fun_eq_iff)

lemma totalWarm_simps [simp]:
  "totalWarm (p\<lparr>manager := m\<rparr>) = totalWarm p"
  "totalWarm (p\<lparr>busyContainers := b\<rparr>) = totalWarm p"
  "totalWarm (p\<lparr>prewarmConfig := c\<rparr>) = totalWarm p"
  by (simp_all add: totalWarm_def)

lemma pool_wf_simps [simp]:
  "pool_wf (p\<lparr>manager := m\<rparr>) = pool_wf p"
  "pool_wf (p\<lparr>prewarmConfig := c\<rparr>) = pool_wf p"
  by (simp_all add: pool_wf_def)

lemma Busy_keys:
  assumes "pool_wf p"
  shows "Busy p = map fst (busyContainers p)"
  unfolding Busy_def
proof (rule map_cong [OF refl])
  fix e assume "e \<in> set (busyContainers p)"
  with assms have "case e of (k, pc) \<Rightarrow> ID (Container pc) = k"
    unfolding pool_wf_def by blast
  then show "(case e of (k, pc) \<Rightarrow> ID (Container pc)) = fst e"
    by (cases e) simp
qed

lemma Warm_update:
  "\<exists>A B. Warm p = A @ map (\<lambda>pc. ID (Container pc)) (warm_slice p k) @ B
        \<and> (\<forall>cs. Warm (p\<lparr>warmContainers := AList.update k cs (warmContainers p)\<rparr>)
                   = A @ map (\<lambda>pc. ID (Container pc)) cs @ B)"
proof -
  from warm_all_update [of p k] obtain A where
    "\<exists>B. warm_all p = A @ warm_slice p k @ B
        \<and> (\<forall>cs. warm_all (p\<lparr>warmContainers := AList.update k cs (warmContainers p)\<rparr>) = A @ cs @ B)" ..
  then obtain B where AB0: "warm_all p = A @ warm_slice p k @ B
        \<and> (\<forall>cs. warm_all (p\<lparr>warmContainers := AList.update k cs (warmContainers p)\<rparr>) = A @ cs @ B)" ..
  from AB0 have AB1: "warm_all p = A @ warm_slice p k @ B"
    by (rule conjunct1)
  from AB0 have AB2: "\<forall>cs. warm_all (p\<lparr>warmContainers := AList.update k cs (warmContainers p)\<rparr>) = A @ cs @ B"
    by (rule conjunct2)
  show ?thesis
    by (rule exI [of _ "map (\<lambda>pc. ID (Container pc)) A"],
        rule exI [of _ "map (\<lambda>pc. ID (Container pc)) B"])
      (simp add: Warm_def AB1 AB2)
qed

lemma Warm_updateE:
  obtains A B where "Warm p = A @ map (\<lambda>pc. ID (Container pc)) (warm_slice p k) @ B"
    and "\<And>cs. Warm (p\<lparr>warmContainers := AList.update k cs (warmContainers p)\<rparr>)
                   = A @ map (\<lambda>pc. ID (Container pc)) cs @ B"
proof -
  from Warm_update [of p k] obtain A where
    "\<exists>B. Warm p = A @ map (\<lambda>pc. ID (Container pc)) (warm_slice p k) @ B
        \<and> (\<forall>cs. Warm (p\<lparr>warmContainers := AList.update k cs (warmContainers p)\<rparr>)
                   = A @ map (\<lambda>pc. ID (Container pc)) cs @ B)" ..
  then obtain B where AB0: "Warm p = A @ map (\<lambda>pc. ID (Container pc)) (warm_slice p k) @ B
        \<and> (\<forall>cs. Warm (p\<lparr>warmContainers := AList.update k cs (warmContainers p)\<rparr>)
                   = A @ map (\<lambda>pc. ID (Container pc)) cs @ B)" ..
  from AB0 have 1: "Warm p = A @ map (\<lambda>pc. ID (Container pc)) (warm_slice p k) @ B"
    by (rule conjunct1)
  from AB0 have "\<forall>cs. Warm (p\<lparr>warmContainers := AList.update k cs (warmContainers p)\<rparr>)
                   = A @ map (\<lambda>pc. ID (Container pc)) cs @ B"
    by (rule conjunct2)
  then have 2: "\<And>cs. Warm (p\<lparr>warmContainers := AList.update k cs (warmContainers p)\<rparr>)
                   = A @ map (\<lambda>pc. ID (Container pc)) cs @ B"
    by (rule spec)
  from 1 2 show ?thesis by (rule that)
qed

text \<open>Replacing one runtime's list by a subsequence of it.\<close>

lemma shrink_warm:
  assumes "pool_wf p" and "subseq cs (warm_slice p k)"
    and "p' = p\<lparr>warmContainers := AList.update k cs (warmContainers p)\<rparr>"
  shows "pool_wf p'" and "set (Warm p') \<subseteq> set (Warm p)" and "totalWarm p' \<le> totalWarm p"
    and "warm_slice p' k = cs"
proof -
  obtain A B where
    AB: "Warm p = A @ map (\<lambda>pc. ID (Container pc)) (warm_slice p k) @ B"
    and AB': "\<And>cs. Warm (p\<lparr>warmContainers := AList.update k cs (warmContainers p)\<rparr>)
                   = A @ map (\<lambda>pc. ID (Container pc)) cs @ B"
    by (rule Warm_updateE [of p k], rule that)
  have W': "Warm p' = A @ map (\<lambda>pc. ID (Container pc)) cs @ B"
    unfolding assms(3) by (rule AB')
  have "subseq (map (\<lambda>pc. ID (Container pc)) cs @ B) (map (\<lambda>pc. ID (Container pc)) (warm_slice p k) @ B)"
    by (intro list_emb_append_mono subseq_map assms(2)) simp
  then have sub: "subseq (Warm p') (Warm p)"
    unfolding AB W' by (simp add: subseq_append')
  from subseq_distinct [OF sub] assms(1) have "distinct (Warm p')"
    by (simp add: pool_wf_def)
  moreover have "busyContainers p' = busyContainers p"
    "distinct (map fst (warmContainers p'))"
    using assms(1) by (simp_all add: assms(3) pool_wf_def distinct_update)
  ultimately show "pool_wf p'"
    using assms(1) unfolding pool_wf_def by simp
  from subseq_subset [OF sub] show "set (Warm p') \<subseteq> set (Warm p)" .
  from list_emb_length [OF sub] show "totalWarm p' \<le> totalWarm p"
    by (simp add: totalWarm_length Warm_def)
  show "warm_slice p' k = cs"
    by (simp add: assms(3) warm_slice_def update_conv')
qed

lemma distinct_remove_at:
  assumes "distinct (map f xs)" and "i < length xs"
  shows "f (xs ! i) \<notin> f ` set (remove_at i xs)"
proof -
  from assms(2) have xs: "take i xs @ xs ! i # drop (Suc i) xs = xs"
    by (rule id_take_nth_drop [symmetric])
  have "distinct (map f (take i xs @ xs ! i # drop (Suc i) xs))"
    unfolding xs by (rule assms(1))
  then show ?thesis
    by (auto simp: remove_at_def)
qed

lemma take_out_warm:
  assumes "pool_wf p" and "i < length (warm_slice p k)"
    and "p' = p\<lparr>warmContainers := AList.update k (remove_at i (warm_slice p k)) (warmContainers p)\<rparr>"
  shows "ID (Container (warm_slice p k ! i)) \<notin> set (Warm p')"
    and "ID (Container (warm_slice p k ! i)) \<in> set (Warm p)"
proof -
  let ?f = "\<lambda>pc. ID (Container pc)"
  let ?cs = "warm_slice p k"
  obtain A B where
    AB: "Warm p = A @ map ?f ?cs @ B"
    and AB': "\<And>cs. Warm (p\<lparr>warmContainers := AList.update k cs (warmContainers p)\<rparr>)
                   = A @ map ?f cs @ B"
    by (rule Warm_updateE [of p k], rule that)
  have W': "Warm p' = A @ map ?f (remove_at i ?cs) @ B"
    unfolding assms(3) by (rule AB')
  from assms(1) have d: "distinct (A @ map ?f ?cs @ B)"
    unfolding pool_wf_def AB by simp
  then have "distinct (map ?f ?cs)"
    by simp
  from distinct_remove_at [OF this assms(2)]
  have 1: "?f (?cs ! i) \<notin> set (map ?f (remove_at i ?cs))"
    by simp
  have m: "?f (?cs ! i) \<in> set (map ?f ?cs)"
    using assms(2) by simp
  with d have 2: "?f (?cs ! i) \<notin> set A" "?f (?cs ! i) \<notin> set B"
    by auto
  from 1 2 show "?f (?cs ! i) \<notin> set (Warm p')"
    unfolding W' by simp
  from m show "?f (?cs ! i) \<in> set (Warm p)"
    unfolding AB by simp
qed

lemma insert_busy:
  assumes "pool_wf p" and "ID (Container pc) = k"
    and "p' = p\<lparr>busyContainers := AList.update k pc (busyContainers p)\<rparr>"
  shows "pool_wf p'" and "set (Busy p') = insert k (set (Busy p))"
proof -
  have keys: "\<forall>(k', pc') \<in> set (busyContainers p'). ID (Container pc') = k'"
  proof (intro ballI)
    fix e assume "e \<in> set (busyContainers p')"
    with set_update_subset [of k pc "busyContainers p"] assms(3)
    have "e = (k, pc) \<or> e \<in> set (busyContainers p)"
      by auto
    with assms(1,2) show "case e of (k', pc') \<Rightarrow> ID (Container pc') = k'"
      unfolding pool_wf_def by blast
  qed
  have "distinct (map fst (busyContainers p'))"
    using assms(1,3) by (simp add: pool_wf_def distinct_update)
  moreover have "warmContainers p' = warmContainers p" "Warm p' = Warm p"
    by (simp_all add: assms(3))
  ultimately show wf: "pool_wf p'"
    using keys assms(1) unfolding pool_wf_def by simp
  from Busy_keys [OF wf] Busy_keys [OF assms(1)] show "set (Busy p') = insert k (set (Busy p))"
    using dom_update [of k pc "busyContainers p"] by (simp add: assms(3))
qed

lemma delete_busy:
  assumes "pool_wf p"
    and "p' = p\<lparr>busyContainers := AList.delete k (busyContainers p)\<rparr>"
  shows "pool_wf p'" and "set (Busy p') = set (Busy p) - {k}"
proof -
  have sub: "set (busyContainers p') \<subseteq> set (busyContainers p)"
    by (auto simp: assms(2) AList.delete_eq)
  have "distinct (map fst (busyContainers p'))"
    using assms by (simp add: pool_wf_def distinct_delete)
  moreover have "\<forall>(k', pc') \<in> set (busyContainers p'). ID (Container pc') = k'"
    using sub assms(1) unfolding pool_wf_def by blast
  moreover have "warmContainers p' = warmContainers p" "Warm p' = Warm p"
    by (simp_all add: assms(2))
  ultimately show wf: "pool_wf p'"
    using assms(1) unfolding pool_wf_def by simp
  from Busy_keys [OF wf] Busy_keys [OF assms(1)] show "set (Busy p') = set (Busy p) - {k}"
    by (simp add: assms(2) delete_keys)
qed

lemma append_warm:
  assumes "pool_wf p" and "ID (Container pc) \<notin> set (Warm p)"
  shows "pool_wf (add_warm pc p)"
    and "set (Warm (add_warm pc p)) = insert (ID (Container pc)) (set (Warm p))"
    and "totalWarm (add_warm pc p) = totalWarm p + 1"
    and "Busy (add_warm pc p) = Busy p"
    and "manager (add_warm pc p) = manager p"
    and "maxPoolSize (add_warm pc p) = maxPoolSize p"
proof -
  let ?f = "\<lambda>pc. ID (Container pc)"
  let ?k = "Runtime pc"
  obtain A B where
    AB1: "Warm p = A @ map ?f (warm_slice p ?k) @ B"
    and AB': "\<And>cs. Warm (p\<lparr>warmContainers := AList.update ?k cs (warmContainers p)\<rparr>)
                   = A @ map ?f cs @ B"
    by (rule Warm_updateE [of p "Runtime pc"], rule that)
  have AB2: "Warm (add_warm pc p) = A @ map ?f (warm_slice p ?k @ [pc]) @ B"
    unfolding add_warm_def by (rule AB')
  note AB = AB1 AB2
  from assms(1) AB(1) have "distinct (A @ map ?f (warm_slice p ?k) @ B)"
    by (simp add: pool_wf_def)
  moreover from assms(2) AB(1) have "?f pc \<notin> set (A @ map ?f (warm_slice p ?k) @ B)"
    by simp
  ultimately have dw: "distinct (Warm (add_warm pc p))"
    unfolding AB(2) by auto
  have "busyContainers (add_warm pc p) = busyContainers p"
    "distinct (map fst (warmContainers (add_warm pc p)))"
    using assms(1) by (simp_all add: add_warm_def pool_wf_def distinct_update)
  with dw assms(1) show wf: "pool_wf (add_warm pc p)"
    unfolding pool_wf_def by simp
  from AB show "set (Warm (add_warm pc p)) = insert (ID (Container pc)) (set (Warm p))"
    by auto
  from AB have "length (Warm (add_warm pc p)) = length (Warm p) + 1"
    by simp
  then show "totalWarm (add_warm pc p) = totalWarm p + 1"
    by (simp add: totalWarm_length Warm_def)
  show "Busy (add_warm pc p) = Busy p" "manager (add_warm pc p) = manager p"
    "maxPoolSize (add_warm pc p) = maxPoolSize p"
    by (simp_all add: add_warm_def)
qed

lemma pool_inv_alt:
  "pool_inv d p \<longleftrightarrow> pool_wf p \<and> set (Warm p) \<inter> set (Busy p) = {} \<and> docker_ids_fresh d p"
  by (simp add: pool_inv_def)

lemma fresh_mono:
  assumes "docker_ids_fresh d p" and "prefix (manager p) (manager p')"
    and "set (Warm p') \<union> set (Busy p') \<subseteq> set (Warm p) \<union> set (Busy p)"
  shows "docker_ids_fresh d p'"
  unfolding docker_ids_fresh_def
proof (intro allI impI)
  fix h r c
  assume a: "prefix (manager p') h \<and> create_outcome d h r = Inr c"
  with assms(2) have "prefix (manager p) h"
    using prefix_order.trans by blast
  with a assms(1) have "ID c \<notin> set (Warm p) \<union> set (Busy p)"
    unfolding docker_ids_fresh_def by blast
  with assms(3) show "ID c \<notin> set (Warm p') \<union> set (Busy p')"
    by blast
qed

lemma fresh_create:
  assumes "docker_ids_unique d" and "docker_ids_fresh d p"
    and "create_outcome d (manager p) rt = Inr c"
    and "manager p' = manager p @ [CallCreate rt]"
    and "set (Warm p') \<union> set (Busy p') \<subseteq> insert (ID c) (set (Warm p) \<union> set (Busy p))"
  shows "docker_ids_fresh d p'" and "ID c \<notin> set (Warm p) \<union> set (Busy p)"
proof -
  from assms(2,3) show "ID c \<notin> set (Warm p) \<union> set (Busy p)"
    unfolding docker_ids_fresh_def by blast
  show "docker_ids_fresh d p'"
    unfolding docker_ids_fresh_def
  proof (intro allI impI)
    fix h r c'
    assume a: "prefix (manager p') h \<and> create_outcome d h r = Inr c'"
    then have sp: "strict_prefix (manager p) h"
      unfolding assms(4) by (auto simp: strict_prefix_def prefix_def)
    then have "prefix (manager p) h" by (simp add: strict_prefix_def)
    with a assms(2) have 1: "ID c' \<notin> set (Warm p) \<union> set (Busy p)"
      unfolding docker_ids_fresh_def by blast
    from sp a assms(1,3) have 2: "ID c' \<noteq> ID c"
      unfolding docker_ids_unique_def by metis
    from 1 2 assms(5) show "ID c' \<notin> set (Warm p') \<union> set (Busy p')"
      by blast
  qed
qed


text \<open>Moving the container at index \<open>i\<close> of a runtime's warm list into the busy map.\<close>

lemma move_to_busy:
  assumes "pool_inv d p" and "i < length (warm_slice p k)"
    and "ID (Container pc') = ID (Container (warm_slice p k ! i))"
    and "p1 = p\<lparr>warmContainers := AList.update k (remove_at i (warm_slice p k)) (warmContainers p)\<rparr>"
    and "p' = p1\<lparr>busyContainers := AList.update (ID (Container pc')) pc' (busyContainers p1)\<rparr>"
  shows "pool_inv d p'" and "totalWarm p' \<le> totalWarm p"
proof -
  from assms(1) have wf: "pool_wf p" and dj: "set (Warm p) \<inter> set (Busy p) = {}"
    and fr: "docker_ids_fresh d p"
    by (simp_all add: pool_inv_def)
  note s = shrink_warm [OF wf subseq_remove_at [of i "warm_slice p k"] assms(4)]
  note t = take_out_warm [OF wf assms(2) assms(4)]
  note b = insert_busy [OF s(1) refl assms(5)]
  have W: "Warm p' = Warm p1" and B1: "Busy p1 = Busy p"
    and M: "manager p' = manager p"
    by (simp_all add: assms(4,5))
  from t(1) have nin: "ID (Container pc') \<notin> set (Warm p')"
    unfolding W assms(3) .
  from t(2) have inn: "ID (Container pc') \<in> set (Warm p)"
    unfolding assms(3) .
  have B': "set (Busy p') = insert (ID (Container pc')) (set (Busy p))"
    using b(2) unfolding B1 .
  have W': "set (Warm p') \<subseteq> set (Warm p)"
    using s(2) unfolding W .
  from W' dj nin have dj': "set (Warm p') \<inter> set (Busy p') = {}"
    unfolding B' by auto
  from W' inn have sub: "set (Warm p') \<union> set (Busy p') \<subseteq> set (Warm p) \<union> set (Busy p)"
    unfolding B' by auto
  have pre: "prefix (manager p) (manager p')"
    unfolding M by simp
  from fresh_mono [OF fr pre sub] b(1) dj' show "pool_inv d p'"
    unfolding pool_inv_def by simp
  from s(3) show "totalWarm p' \<le> totalWarm p"
    by (simp add: assms(5))
qed

lemma manager_only:
  assumes "pool_inv d p" and "p' = p\<lparr>manager := manager p @ calls\<rparr>"
  shows "pool_inv d p'"
proof -
  from assms(1) have wf: "pool_wf p" and dj: "set (Warm p) \<inter> set (Busy p) = {}"
    and fr: "docker_ids_fresh d p"
    by (simp_all add: pool_inv_def)
  have e: "Warm p' = Warm p" "Busy p' = Busy p" "pool_wf p' = pool_wf p"
    "manager p' = manager p @ calls"
    by (simp_all add: assms(2))
  have pre: "prefix (manager p) (manager p')"
    unfolding e by simp
  have sub: "set (Warm p') \<union> set (Busy p') \<subseteq> set (Warm p) \<union> set (Busy p)"
    unfolding e by simp
  from fresh_mono [OF fr pre sub] wf dj show ?thesis
    unfolding pool_inv_def e by simp
qed

lemma new_busy:
  assumes "docker_ids_unique d" and "pool_inv d p"
    and "create_outcome d (manager p) rt = Inr c" and "ID (Container pc) = ID c"
    and "p1 = p\<lparr>manager := manager p @ [CallCreate rt]\<rparr>"
    and "p' = p1\<lparr>busyContainers := AList.update (ID c) pc (busyContainers p1)\<rparr>"
  shows "pool_inv d p'"
proof -
  from assms(2) have wf: "pool_wf p" and dj: "set (Warm p) \<inter> set (Busy p) = {}"
    and fr: "docker_ids_fresh d p"
    by (simp_all add: pool_inv_def)
  have e1: "Warm p1 = Warm p" "Busy p1 = Busy p" "pool_wf p1 = pool_wf p"
    by (simp_all add: assms(5))
  from wf have wf1: "pool_wf p1" unfolding e1 .
  note b = insert_busy [OF wf1 assms(4) assms(6)]
  have W: "Warm p' = Warm p" and M: "manager p' = manager p @ [CallCreate rt]"
    by (simp_all add: assms(5,6))
  have B': "set (Busy p') = insert (ID c) (set (Busy p))"
    using b(2) unfolding e1 .
  have sub: "set (Warm p') \<union> set (Busy p') \<subseteq> insert (ID c) (set (Warm p) \<union> set (Busy p))"
    unfolding W B' by auto
  note f = fresh_create [OF assms(1) fr assms(3) M sub]
  from f(2) dj have "set (Warm p') \<inter> set (Busy p') = {}"
    unfolding W B' by auto
  with b(1) f(1) show ?thesis
    unfolding pool_inv_def by simp
qed

lemma new_warm:
  assumes "docker_ids_unique d" and "pool_inv d p"
    and "create_outcome d (manager p) rt = Inr c" and "ID (Container pc) = ID c"
    and "p1 = p\<lparr>manager := manager p @ [CallCreate rt]\<rparr>"
    and "p' = add_warm pc p1"
  shows "pool_inv d p'" and "totalWarm p' = totalWarm p + 1"
proof -
  from assms(2) have wf: "pool_wf p" and dj: "set (Warm p) \<inter> set (Busy p) = {}"
    and fr: "docker_ids_fresh d p"
    by (simp_all add: pool_inv_def)
  have e1: "Warm p1 = Warm p" "Busy p1 = Busy p" "pool_wf p1 = pool_wf p"
    "totalWarm p1 = totalWarm p" "manager p1 = manager p @ [CallCreate rt]"
    by (simp_all add: assms(5))
  from wf have wf1: "pool_wf p1" unfolding e1 .
  have "ID c \<notin> set (Warm p) \<union> set (Busy p)"
    using assms(3) fr unfolding docker_ids_fresh_def by blast
  then have n1: "ID (Container pc) \<notin> set (Warm p1)" and n2: "ID c \<notin> set (Busy p)"
    unfolding e1 assms(4) by simp_all
  note a = append_warm [OF wf1 n1]
  have W': "set (Warm p') = insert (ID c) (set (Warm p))"
    using a(2) unfolding assms(6) e1 assms(4) .
  have B': "Busy p' = Busy p"
    using a(4) unfolding assms(6) e1 .
  have M: "manager p' = manager p @ [CallCreate rt]"
    using a(5) unfolding assms(6) e1 .
  have sub: "set (Warm p') \<union> set (Busy p') \<subseteq> insert (ID c) (set (Warm p) \<union> set (Busy p))"
    unfolding W' B' by auto
  note f = fresh_create [OF assms(1) fr assms(3) M sub]
  from n2 dj have "set (Warm p') \<inter> set (Busy p') = {}"
    unfolding W' B' by auto
  moreover have "pool_wf p'"
    unfolding assms(6) by (rule a(1))
  ultimately show "pool_inv d p'"
    using f(1) unfolding pool_inv_def by simp
  show "totalWarm p' = totalWarm p + 1"
    using a(3) unfolding assms(6) e1 .
qed

lemma take_initialized_inv:
  assumes "take_initialized now rt action p = Some (pc, p')" and "pool_inv d p"
  shows "pool_inv d p' \<and> totalWarm p' \<le> totalWarm p \<and> maxPoolSize p' = maxPoolSize p"
proof -
  from assms(1) obtain cs where cs: "map_of (warmContainers p) rt = Some cs"
    by (cases "map_of (warmContainers p) rt") (simp_all add: take_initialized_def)
  from assms(1) cs obtain i where
    i: "first_index (\<lambda>pc. InitializedAction pc = action \<and> State pc = PoolStateWarm) cs = Some i"
    by (cases "first_index (\<lambda>pc. InitializedAction pc = action \<and> State pc = PoolStateWarm) cs")
      (simp_all add: take_initialized_def)
  from assms(1) cs i have pc: "pc = (cs ! i)\<lparr>State := PoolStateBusy, LastUsed := now\<rparr>"
    by (auto simp: take_initialized_def Let_def)
  from assms(1) cs i have p': "p' = p\<lparr>warmContainers := AList.update rt (remove_at i cs) (warmContainers p),
                     busyContainers := AList.update (ID (Container pc)) pc (busyContainers p)\<rparr>"
    by (auto simp: take_initialized_def Let_def)
  have ws: "warm_slice p rt = cs"
    using cs by (simp add: warm_slice_def)
  from first_index_Some [OF i] have il: "i < length (warm_slice p rt)"
    unfolding ws by simp
  have idp: "ID (Container pc) = ID (Container (warm_slice p rt ! i))"
    unfolding ws pc by simp
  define p1 where "p1 = p\<lparr>warmContainers := AList.update rt (remove_at i (warm_slice p rt)) (warmContainers p)\<rparr>"
  have p'': "p' = p1\<lparr>busyContainers := AList.update (ID (Container pc)) pc (busyContainers p1)\<rparr>"
    unfolding p' p1_def ws by simp
  note m = move_to_busy [OF assms(2) il idp p1_def p'']
  have "maxPoolSize p' = maxPoolSize p"
    unfolding p' by simp
  with m show ?thesis by simp
qed

lemma take_matching_runtime_inv:
  assumes "take_matching_runtime now rt action p = Some (pc, p')" and "pool_inv d p"
  shows "pool_inv d p' \<and> totalWarm p' \<le> totalWarm p \<and> maxPoolSize p' = maxPoolSize p"
proof -
  from assms(1) obtain cs where cs: "map_of (warmContainers p) rt = Some cs"
    by (cases "map_of (warmContainers p) rt") (simp_all add: take_matching_runtime_def)
  from assms(1) cs have ne: "0 < length cs"
    by (cases "0 < length cs") (simp_all add: take_matching_runtime_def)
  from assms(1) cs ne
  have pc: "pc = (cs ! (length cs - 1))\<lparr>State := PoolStateBusy, LastUsed := now, InitializedAction := action\<rparr>"
    by (auto simp: take_matching_runtime_def Let_def)
  from assms(1) cs ne
  have p': "p' = p\<lparr>warmContainers := AList.update rt (take (length cs - 1) cs) (warmContainers p),
                     busyContainers := AList.update (ID (Container pc)) pc (busyContainers p)\<rparr>"
    by (auto simp: take_matching_runtime_def Let_def)
  have ws: "warm_slice p rt = cs"
    using cs by (simp add: warm_slice_def)
  from ne have il: "length cs - 1 < length (warm_slice p rt)"
    unfolding ws by simp
  have idp: "ID (Container pc) = ID (Container (warm_slice p rt ! (length cs - 1)))"
    unfolding ws pc by simp
  have tk: "take (length cs - 1) cs = remove_at (length cs - 1) cs"
    using ne by (simp add: remove_at_def)
  define p1 where "p1 = p\<lparr>warmContainers := AList.update rt (remove_at (length cs - 1) (warm_slice p rt)) (warmContainers p)\<rparr>"
  have p'': "p' = p1\<lparr>busyContainers := AList.update (ID (Container pc)) pc (busyContainers p1)\<rparr>"
    unfolding p' p1_def ws tk by simp
  note m = move_to_busy [OF assms(2) il idp p1_def p'']
  have "maxPoolSize p' = maxPoolSize p"
    unfolding p' by simp
  with m show ?thesis by simp
qed

lemma create_cold_inv:
  assumes "docker_ids_unique d" and "pool_inv d p"
  shows "pool_inv d (snd (create_cold d now rt action p))
       \<and> totalWarm (snd (create_cold d now rt action p)) \<le> totalWarm p
       \<and> maxPoolSize (snd (create_cold d now rt action p)) = maxPoolSize p"
proof (cases "create_outcome d (manager p) rt")
  case (Inl err)
  define p1 where "p1 = p\<lparr>manager := manager p @ [CallCreate rt]\<rparr>"
  have r: "snd (create_cold d now rt action p) = p1"
    using Inl by (simp add: create_cold_def mgr_CreateContainer_def p1_def)
  have "totalWarm p1 = totalWarm p" "maxPoolSize p1 = maxPoolSize p"
    by (simp_all add: p1_def)
  with manager_only [OF assms(2) p1_def] show ?thesis
    unfolding r by simp
next
  case (Inr container)
  define pc where "pc = \<lparr>Container = container, Runtime = rt, State = PoolStateBusy,
                     LastUsed = now, InitializedAction = action\<rparr>"
  define p1 where "p1 = p\<lparr>manager := manager p @ [CallCreate rt]\<rparr>"
  define p2 where "p2 = p1\<lparr>busyContainers := AList.update (ID container) pc (busyContainers p1)\<rparr>"
  have r: "snd (create_cold d now rt action p) = p2"
    using Inr by (simp add: create_cold_def mgr_CreateContainer_def Let_def p1_def p2_def pc_def)
  have idc: "ID (Container pc) = ID container"
    by (simp add: pc_def)
  have "totalWarm p2 = totalWarm p" "maxPoolSize p2 = maxPoolSize p"
    by (simp_all add: p1_def p2_def)
  with new_busy [OF assms Inr idc p1_def p2_def] show ?thesis
    unfolding r by simp
qed

lemma GetContainer_inv:
  assumes "docker_ids_unique d" and "pool_inv d p"
  shows "pool_inv d (snd (GetContainer d now rt action p))
       \<and> totalWarm (snd (GetContainer d now rt action p)) \<le> totalWarm p
       \<and> maxPoolSize (snd (GetContainer d now rt action p)) = maxPoolSize p"
proof (cases "take_initialized now rt action p")
  case (Some r)
  obtain pc p' where r: "r = (pc, p')" by (cases r)
  from Some r have g: "snd (GetContainer d now rt action p) = p'"
    by (simp add: GetContainer_def)
  from take_initialized_inv [OF Some [unfolded r] assms(2)] show ?thesis
    unfolding g .
next
  case None
  show ?thesis
  proof (cases "take_matching_runtime now rt action p")
    case (Some r)
    obtain pc p' where r: "r = (pc, p')" by (cases r)
    from None Some r have g: "snd (GetContainer d now rt action p) = p'"
      by (simp add: GetContainer_def)
    from take_matching_runtime_inv [OF Some [unfolded r] assms(2)] show ?thesis
      unfolding g .
  next
    case n2: None
    from None n2 have g: "GetContainer d now rt action p = create_cold d now rt action p"
      by (simp add: GetContainer_def)
    from create_cold_inv [OF assms] show ?thesis
      unfolding g .
  qed
qed

lemma totalWarm_update:
  "totalWarm (p\<lparr>warmContainers := AList.update k cs (warmContainers p)\<rparr>) + int (length (warm_slice p k))
     = totalWarm p + int (length cs)"
proof -
  obtain A B where
    AB: "Warm p = A @ map (\<lambda>pc. ID (Container pc)) (warm_slice p k) @ B"
    and AB': "\<And>cs. Warm (p\<lparr>warmContainers := AList.update k cs (warmContainers p)\<rparr>)
                   = A @ map (\<lambda>pc. ID (Container pc)) cs @ B"
    by (rule Warm_updateE [of p k], rule that)
  have 1: "totalWarm p = int (length (Warm p))"
    and 2: "totalWarm (p\<lparr>warmContainers := AList.update k cs (warmContainers p)\<rparr>)
       = int (length (Warm (p\<lparr>warmContainers := AList.update k cs (warmContainers p)\<rparr>)))"
    by (simp_all add: totalWarm_length Warm_def)
  show ?thesis
    unfolding 1 2 AB AB' by simp
qed

lemma length_remove_at: "i < length cs \<Longrightarrow> Suc (length (remove_at i cs)) = length cs"
  by (simp add: remove_at_def)

lemma removeOldestContainer_effect:
  assumes "pool_wf p" and "removeOldestContainer d p = (e, p2)"
  shows "pool_wf p2" and "set (Warm p2) \<subseteq> set (Warm p)" and "Busy p2 = Busy p"
    and "prefix (manager p) (manager p2)" and "maxPoolSize p2 = maxPoolSize p"
    and "totalWarm p2 \<le> totalWarm p" and "e = None \<Longrightarrow> totalWarm p2 + 1 = totalWarm p"
proof -
  have "pool_wf p2 \<and> set (Warm p2) \<subseteq> set (Warm p) \<and> Busy p2 = Busy p
      \<and> prefix (manager p) (manager p2) \<and> maxPoolSize p2 = maxPoolSize p
      \<and> totalWarm p2 \<le> totalWarm p \<and> (e = None \<longrightarrow> totalWarm p2 + 1 = totalWarm p)"
  proof (cases "find_oldest p")
    case None
    with assms(2) have "p2 = p" "e \<noteq> None"
      by (auto simp: removeOldestContainer_def)
    with assms(1) show ?thesis by simp
  next
    case (Some t)
    obtain rt i oldest where t: "t = (rt, i, oldest)" by (cases t)
    define p1 where "p1 = p\<lparr>warmContainers := AList.update rt (remove_at i (warm_slice p rt)) (warmContainers p)\<rparr>"
    from assms(2) Some t have p2: "p2 = p1\<lparr>manager := manager p1 @ [CallRemove (ID (Container oldest))]\<rparr>"
      by (simp add: removeOldestContainer_def mgr_RemoveContainer_def p1_def)
    from assms(1) have dk: "distinct (map fst (warmContainers p))"
      by (simp add: pool_wf_def)
    from find_oldest_Some [OF Some] t have "(rt, i, oldest) \<in> set (warm_entries p)"
      by simp
    from warm_entries_slice [OF dk this] have il: "i < length (warm_slice p rt)"
      by simp
    note s = shrink_warm [OF assms(1) subseq_remove_at [of i "warm_slice p rt"] p1_def]
    from totalWarm_update [where p = p and k = rt and cs = "remove_at i (warm_slice p rt)"]
      length_remove_at [OF il]
    have cnt: "totalWarm p1 + 1 = totalWarm p"
      unfolding p1_def by simp
    have e2: "Warm p2 = Warm p1" "Busy p2 = Busy p" "pool_wf p2 = pool_wf p1"
      "manager p2 = manager p @ [CallRemove (ID (Container oldest))]"
      "maxPoolSize p2 = maxPoolSize p" "totalWarm p2 = totalWarm p1"
      by (simp_all add: p2 p1_def)
    from s cnt show ?thesis
      unfolding e2 by simp
  qed
  then show "pool_wf p2" and "set (Warm p2) \<subseteq> set (Warm p)" and "Busy p2 = Busy p"
    and "prefix (manager p) (manager p2)" and "maxPoolSize p2 = maxPoolSize p"
    and "totalWarm p2 \<le> totalWarm p" and "e = None \<Longrightarrow> totalWarm p2 + 1 = totalWarm p"
    by simp_all
qed

lemma inv_from_sub:
  assumes "pool_inv d p" and "pool_wf p'"
    and "set (Warm p') \<inter> set (Busy p') = {}"
    and "set (Warm p') \<union> set (Busy p') \<subseteq> set (Warm p) \<union> set (Busy p)"
    and "prefix (manager p) (manager p')"
  shows "pool_inv d p'"
proof -
  from assms(1) have "docker_ids_fresh d p"
    by (simp add: pool_inv_def)
  from fresh_mono [OF this assms(5) assms(4)] assms(2,3) show ?thesis
    by (simp add: pool_inv_def)
qed

lemma ReturnContainer_inv:
  assumes "pool_inv d p"
  shows "pool_inv d (snd (ReturnContainer d now cid reuse p))
       \<and> maxPoolSize (snd (ReturnContainer d now cid reuse p)) = maxPoolSize p
       \<and> (totalWarm p \<le> maxPoolSize p
            \<longrightarrow> totalWarm (snd (ReturnContainer d now cid reuse p)) \<le> maxPoolSize p)"
proof (cases "map_of (busyContainers p) cid")
  case None
  then have "snd (ReturnContainer d now cid reuse p) = p"
    by (simp add: ReturnContainer_def)
  with assms show ?thesis by simp
next
  case (Some pc)
  from assms have wf: "pool_wf p" and dj: "set (Warm p) \<inter> set (Busy p) = {}"
    by (simp_all add: pool_inv_def)
  from Some have mem: "(cid, pc) \<in> set (busyContainers p)"
    by (rule map_of_SomeD)
  with wf have idpc: "ID (Container pc) = cid"
    unfolding pool_wf_def by blast
  from mem have "cid \<in> set (map fst (busyContainers p))"
    by force
  then have inB: "cid \<in> set (Busy p)"
    unfolding Busy_keys [OF wf] .
  with dj have ninW: "cid \<notin> set (Warm p)"
    by blast
  define p1 where "p1 = p\<lparr>busyContainers := AList.delete cid (busyContainers p)\<rparr>"
  note db = delete_busy [OF wf p1_def]
  have e1: "Warm p1 = Warm p" "manager p1 = manager p" "maxPoolSize p1 = maxPoolSize p"
    "totalWarm p1 = totalWarm p"
    by (simp_all add: p1_def)
  define pc' where "pc' = pc\<lparr>State := PoolStateWarm, LastUsed := now\<rparr>"
  have idpc': "ID (Container pc') = cid"
    unfolding pc'_def using idpc by simp
  have R: "ReturnContainer d now cid reuse p =
      (if \<not> reuse then mgr_RemoveContainer d cid p1
       else if totalWarm p1 \<ge> maxPoolSize p1 then
         (case removeOldestContainer d p1 of
            (Some err, p2) \<Rightarrow> mgr_RemoveContainer d cid p2
          | (None, p2) \<Rightarrow> (None, add_warm pc' p2))
       else (None, add_warm pc' p1))"
    unfolding ReturnContainer_def p1_def pc'_def using Some by (simp add: Let_def)
  txt \<open>Ending with a removal request for the returned container, from a state \<open>q\<close>.\<close>
  have removal: "pool_inv d p' \<and> maxPoolSize p' = maxPoolSize p \<and> totalWarm p' \<le> totalWarm p"
    if q: "pool_wf q" "set (Warm q) \<subseteq> set (Warm p)" "Busy q = Busy p1"
      "prefix (manager p) (manager q)" "maxPoolSize q = maxPoolSize p" "totalWarm q \<le> totalWarm p"
      and p': "p' = snd (mgr_RemoveContainer d cid q)" for q p'
  proof -
    have e: "Warm p' = Warm q" "Busy p' = Busy q" "pool_wf p' = pool_wf q"
      "manager p' = manager q @ [CallRemove cid]" "maxPoolSize p' = maxPoolSize q"
      "totalWarm p' = totalWarm q"
      by (simp_all add: p' mgr_RemoveContainer_def)
    have 1: "pool_wf p'" unfolding e by (rule q(1))
    have 2: "set (Warm p') \<inter> set (Busy p') = {}"
      unfolding e q(3) db(2) using q(2) dj by blast
    have 3: "set (Warm p') \<union> set (Busy p') \<subseteq> set (Warm p) \<union> set (Busy p)"
      unfolding e q(3) db(2) using q(2) by blast
    have 4: "prefix (manager p) (manager p')"
      unfolding e using q(4) by (simp add: prefix_def) (metis append.assoc)
    from inv_from_sub [OF assms 1 2 3 4] q(5,6) show ?thesis
      unfolding e by simp
  qed
  txt \<open>Ending with the returned container appended to the warm lists of a state \<open>q\<close>.\<close>
  have insertion: "pool_inv d p' \<and> maxPoolSize p' = maxPoolSize p \<and> totalWarm p' = totalWarm q + 1"
    if q: "pool_wf q" "set (Warm q) \<subseteq> set (Warm p)" "Busy q = Busy p1"
      "prefix (manager p) (manager q)" "maxPoolSize q = maxPoolSize p"
      and p': "p' = add_warm pc' q" for q p'
  proof -
    from ninW q(2) have n: "ID (Container pc') \<notin> set (Warm q)"
      unfolding idpc' by blast
    note a = append_warm [OF q(1) n]
    have 1: "pool_wf p'" unfolding p' by (rule a(1))
    have W: "set (Warm p') = insert cid (set (Warm q))"
      unfolding p' using a(2) unfolding idpc' .
    have B: "set (Busy p') = set (Busy p) - {cid}"
      unfolding p' a(4) q(3) by (rule db(2))
    have 2: "set (Warm p') \<inter> set (Busy p') = {}"
      unfolding W B using q(2) dj by blast
    have 3: "set (Warm p') \<union> set (Busy p') \<subseteq> set (Warm p) \<union> set (Busy p)"
      unfolding W B using q(2) inB by blast
    have 4: "prefix (manager p) (manager p')"
      unfolding p' a(5) by (rule q(4))
    have 5: "maxPoolSize p' = maxPoolSize p"
      unfolding p' a(6) by (rule q(5))
    have 6: "totalWarm p' = totalWarm q + 1"
      unfolding p' by (rule a(3))
    from inv_from_sub [OF assms 1 2 3 4] 5 6 show ?thesis
      by simp
  qed
  have q1: "pool_wf p1" "set (Warm p1) \<subseteq> set (Warm p)" "Busy p1 = Busy p1"
    "prefix (manager p) (manager p1)" "maxPoolSize p1 = maxPoolSize p" "totalWarm p1 \<le> totalWarm p"
    using db(1) by (simp_all add: e1)
  show ?thesis
  proof (cases reuse)
    case False
    with R have r: "snd (ReturnContainer d now cid reuse p) = snd (mgr_RemoveContainer d cid p1)"
      by simp
    from removal [OF q1 refl] show ?thesis
      unfolding r by simp
  next
    case True
    show ?thesis
    proof (cases "totalWarm p1 \<ge> maxPoolSize p1")
      case False
      with True R have r: "snd (ReturnContainer d now cid reuse p) = add_warm pc' p1"
        by simp
      from False have "totalWarm p < maxPoolSize p"
        unfolding e1 by simp
      with insertion [OF q1(1-5) refl] show ?thesis
        unfolding r e1 by simp
    next
      case full: True
      obtain e p2 where ro: "removeOldestContainer d p1 = (e, p2)"
        by (cases "removeOldestContainer d p1")
      note eff = removeOldestContainer_effect [OF db(1) ro]
      have q2: "pool_wf p2" "set (Warm p2) \<subseteq> set (Warm p)" "Busy p2 = Busy p1"
        "prefix (manager p) (manager p2)" "maxPoolSize p2 = maxPoolSize p" "totalWarm p2 \<le> totalWarm p"
        using eff unfolding e1 by simp_all
      show ?thesis
      proof (cases e)
        case None
        with True full R ro have r: "snd (ReturnContainer d now cid reuse p) = add_warm pc' p2"
          by simp
        from eff(7) [OF None] have "totalWarm p2 + 1 = totalWarm p"
          unfolding e1 .
        with insertion [OF q2(1-5) refl] show ?thesis
          unfolding r by simp
      next
        case (Some err)
        with True full R ro have r: "snd (ReturnContainer d now cid reuse p) = snd (mgr_RemoveContainer d cid p2)"
          by simp
        from removal [OF q2 refl] show ?thesis
          unfolding r by simp
      qed
    qed
  qed
qed

lemma pool_inv_prewarmConfig [simp]: "pool_inv d (p\<lparr>prewarmConfig := c\<rparr>) = pool_inv d p"
  by (simp add: pool_inv_def docker_ids_fresh_def)

lemma add_stem_cells_inv:
  assumes "docker_ids_unique d" and "pool_inv d p"
  shows "pool_inv d (snd (add_stem_cells d now rt n p))
       \<and> maxPoolSize (snd (add_stem_cells d now rt n p)) = maxPoolSize p"
  using assms(2)
proof (induction n arbitrary: p)
  case 0
  then show ?case by simp
next
  case (Suc n)
  define p1 where "p1 = p\<lparr>manager := manager p @ [CallCreate rt]\<rparr>"
  show ?case
  proof (cases "create_outcome d (manager p) rt")
    case (Inl err)
    then have r: "snd (add_stem_cells d now rt (Suc n) p) = p1"
      by (simp add: mgr_CreateContainer_def p1_def)
    have "maxPoolSize p1 = maxPoolSize p" by (simp add: p1_def)
    with manager_only [OF Suc.prems p1_def] show ?thesis
      unfolding r by simp
  next
    case (Inr c)
    define pc where "pc = \<lparr>Container = c, Runtime = rt, State = PoolStateWarm,
                       LastUsed = now, InitializedAction = []\<rparr>"
    define p2 where "p2 = add_warm pc p1"
    from Inr have r: "add_stem_cells d now rt (Suc n) p = add_stem_cells d now rt n p2"
      by (simp add: mgr_CreateContainer_def p1_def p2_def pc_def)
    have idc: "ID (Container pc) = ID c" by (simp add: pc_def)
    note nw = new_warm [OF assms(1) Suc.prems Inr idc p1_def p2_def]
    have "maxPoolSize p2 = maxPoolSize p"
      by (simp add: p2_def p1_def add_warm_def)
    with Suc.IH [OF nw(1)] show ?thesis
      unfolding r by simp
  qed
qed

lemma prewarm_runtimes_inv:
  assumes "docker_ids_unique d" and "pool_inv d p"
  shows "pool_inv d (snd (prewarm_runtimes d now cfg p))
       \<and> maxPoolSize (snd (prewarm_runtimes d now cfg p)) = maxPoolSize p"
  using assms(2)
proof (induction cfg arbitrary: p)
  case Nil
  then show ?case by simp
next
  case (Cons e cfg)
  obtain rt cnt where e: "e = (rt, cnt)" by (cases e)
  define n where "n = nat (go_int (cnt - go_int (int (stem_cells p rt))))"
  obtain err p1 where a: "add_stem_cells d now rt n p = (err, p1)"
    by (cases "add_stem_cells d now rt n p")
  from add_stem_cells_inv [OF assms(1) Cons.prems, of now rt n] a
  have i1: "pool_inv d p1" "maxPoolSize p1 = maxPoolSize p"
    by simp_all
  show ?case
  proof (cases err)
    case None
    with a e have r: "prewarm_runtimes d now (e # cfg) p = prewarm_runtimes d now cfg p1"
      by (simp add: Let_def n_def)
    from Cons.IH [OF i1(1)] i1(2) show ?thesis
      unfolding r by simp
  next
    case (Some x)
    with a e have r: "snd (prewarm_runtimes d now (e # cfg) p) = p1"
      by (simp add: Let_def n_def)
    from i1 show ?thesis unfolding r by simp
  qed
qed

lemma remove_listed_manager:
  "\<exists>calls. snd (remove_listed d l p) = p\<lparr>manager := manager p @ calls\<rparr>"
proof (induction l arbitrary: p)
  case Nil
  have "snd (remove_listed d [] p) = p\<lparr>manager := manager p @ []\<rparr>" by simp
  then show ?case by (rule exI)
next
  case (Cons pc l)
  show ?case
  proof (cases "State pc = PoolStateWarm \<and> InitializedAction pc = []")
    case False
    then have "remove_listed d (pc # l) p = remove_listed d l p" by auto
    with Cons.IH [of p] show ?thesis by simp
  next
    case True
    define p1 where "p1 = p\<lparr>manager := manager p @ [CallRemove (ID (Container pc))]\<rparr>"
    show ?thesis
    proof (cases "remove_outcome d (manager p) (ID (Container pc))")
      case (Some err)
      with True have "snd (remove_listed d (pc # l) p) = p\<lparr>manager := manager p @ [CallRemove (ID (Container pc))]\<rparr>"
        by (simp add: mgr_RemoveContainer_def)
      then show ?thesis by (rule exI)
    next
      case None
      with True have r: "remove_listed d (pc # l) p = remove_listed d l p1"
        by (simp add: mgr_RemoveContainer_def p1_def)
      from Cons.IH [of p1] obtain calls where
        "snd (remove_listed d l p1) = p1\<lparr>manager := manager p1 @ calls\<rparr>" ..
      then have "snd (remove_listed d (pc # l) p)
          = p\<lparr>manager := manager p @ (CallRemove (ID (Container pc)) # calls)\<rparr>"
        unfolding r by (simp add: p1_def)
      then show ?thesis by (rule exI)
    qed
  qed
qed

lemma remove_each_manager:
  "\<exists>calls. remove_each d l p = p\<lparr>manager := manager p @ calls\<rparr>"
proof (induction l arbitrary: p)
  case Nil
  have "remove_each d [] p = p\<lparr>manager := manager p @ []\<rparr>" by simp
  then show ?case by (rule exI)
next
  case (Cons pc l)
  define p1 where "p1 = p\<lparr>manager := manager p @ [CallRemove (ID (Container pc))]\<rparr>"
  have r: "remove_each d (pc # l) p = remove_each d l p1"
    by (simp add: mgr_RemoveContainer_def p1_def)
  from Cons.IH [of p1] obtain calls where
    "remove_each d l p1 = p1\<lparr>manager := manager p1 @ calls\<rparr>" ..
  then have "remove_each d (pc # l) p
      = p\<lparr>manager := manager p @ (CallRemove (ID (Container pc)) # calls)\<rparr>"
    unfolding r by (simp add: p1_def)
  then show ?case by (rule exI)
qed

lemma shrink_inv:
  assumes "pool_inv d p" and "subseq cs (warm_slice p k)"
    and "p' = p\<lparr>warmContainers := AList.update k cs (warmContainers p)\<rparr>"
  shows "pool_inv d p'" and "totalWarm p' \<le> totalWarm p" and "maxPoolSize p' = maxPoolSize p"
proof -
  from assms(1) have wf: "pool_wf p" and dj: "set (Warm p) \<inter> set (Busy p) = {}"
    by (simp_all add: pool_inv_def)
  note s = shrink_warm [OF wf assms(2,3)]
  have e: "Busy p' = Busy p" "manager p' = manager p" "maxPoolSize p' = maxPoolSize p"
    by (simp_all add: assms(3))
  have 2: "set (Warm p') \<inter> set (Busy p') = {}"
    unfolding e using s(2) dj by blast
  have 3: "set (Warm p') \<union> set (Busy p') \<subseteq> set (Warm p) \<union> set (Busy p)"
    unfolding e using s(2) by blast
  have 4: "prefix (manager p) (manager p')"
    unfolding e by simp
  from inv_from_sub [OF assms(1) s(1) 2 3 4] show "pool_inv d p'" .
  from s(3) show "totalWarm p' \<le> totalWarm p" .
  from e(3) show "maxPoolSize p' = maxPoolSize p" .
qed

lemma ScalePool_inv:
  assumes "docker_ids_unique d" and "pool_inv d p"
  shows "pool_inv d (snd (ScalePool d now rt delta p))
       \<and> maxPoolSize (snd (ScalePool d now rt delta p)) = maxPoolSize p
       \<and> (delta \<le> 0 \<longrightarrow> totalWarm (snd (ScalePool d now rt delta p)) \<le> totalWarm p)"
proof -
  consider (up) "delta > 0" | (down) "delta < 0" | (zero) "delta = 0"
    by linarith
  then show ?thesis
  proof cases
    case zero
    with assms(2) show ?thesis by (simp add: ScalePool_def)
  next
    case up
    obtain err p1 where a: "add_stem_cells d now rt (nat delta) p = (err, p1)"
      by (cases "add_stem_cells d now rt (nat delta) p")
    from add_stem_cells_inv [OF assms, of now rt "nat delta"] a
    have i1: "pool_inv d p1" "maxPoolSize p1 = maxPoolSize p"
      by simp_all
    show ?thesis
    proof (cases err)
      case None
      with up a have "snd (ScalePool d now rt delta p)
          = p1\<lparr>prewarmConfig := AList.update rt (go_int (prewarm_count p1 rt + delta)) (prewarmConfig p1)\<rparr>"
        by (simp add: ScalePool_def)
      with i1 up show ?thesis by simp
    next
      case (Some x)
      with up a have "snd (ScalePool d now rt delta p) = p1"
        by (simp add: ScalePool_def)
      with i1 up show ?thesis by simp
    qed
  next
    case down
    define n where "n = nat (go_int (- delta))"
    define cs where "cs = warm_slice p rt"
    obtain err p1 where a: "remove_listed d (take n cs) p = (err, p1)"
      by (cases "remove_listed d (take n cs) p")
    from remove_listed_manager [of d "take n cs" p] a obtain calls where
      p1: "p1 = p\<lparr>manager := manager p @ calls\<rparr>"
      by auto
    note i1 = manager_only [OF assms(2) p1]
    have e1: "totalWarm p1 = totalWarm p" "maxPoolSize p1 = maxPoolSize p" "warm_slice p1 rt = cs"
      by (simp_all add: p1 cs_def)
    show ?thesis
    proof (cases err)
      case (Some x)
      with down a have "snd (ScalePool d now rt delta p) = p1"
        by (simp add: ScalePool_def Let_def n_def cs_def)
      with i1 e1 show ?thesis by simp
    next
      case None
      define p2 where "p2 = p1\<lparr>warmContainers := AList.update rt (drop_stem_cells n cs) (warmContainers p1)\<rparr>"
      have sub: "subseq (drop_stem_cells n cs) (warm_slice p1 rt)"
        unfolding e1 by (rule subseq_drop_stem_cells)
      note s = shrink_inv [OF i1 sub p2_def]
      from None down a have r: "snd (ScalePool d now rt delta p)
          = p2\<lparr>prewarmConfig := AList.update rt
                 (if go_int (prewarm_count p2 rt + delta) < 0 then 0
                  else go_int (prewarm_count p2 rt + delta))
                 (prewarmConfig p2)\<rparr>"
        by (simp add: ScalePool_def Let_def n_def cs_def p2_def)
      from s e1 show ?thesis
        unfolding r by simp
    qed
  qed
qed

lemma warm_slice_update_other:
  "k' \<noteq> k \<Longrightarrow> warm_slice (p\<lparr>warmContainers := AList.update k cs (warmContainers p)\<rparr>) k' = warm_slice p k'"
  by (simp add: warm_slice_def update_conv')

lemma cleanup_runtimes_inv:
  assumes "pool_inv d p" and "distinct (map fst rest)"
    and "\<forall>(k, cs) \<in> set rest. warm_slice p k = cs"
  shows "pool_inv d (cleanup_runtimes d now maxIdle rest p)
       \<and> totalWarm (cleanup_runtimes d now maxIdle rest p) \<le> totalWarm p
       \<and> maxPoolSize (cleanup_runtimes d now maxIdle rest p) = maxPoolSize p"
  using assms
proof (induction rest arbitrary: p)
  case Nil
  then show ?case by simp
next
  case (Cons e rest)
  obtain k cs where e: "e = (k, cs)" by (cases e)
  from remove_each_manager [of d "filter (is_idle now maxIdle) cs" p] obtain calls where
    p1: "remove_each d (filter (is_idle now maxIdle) cs) p = p\<lparr>manager := manager p @ calls\<rparr>" ..
  define p1 where "p1 = p\<lparr>manager := manager p @ calls\<rparr>"
  define p2 where "p2 = p1\<lparr>warmContainers :=
      AList.update k (filter (\<lambda>pc. \<not> is_idle now maxIdle pc) cs) (warmContainers p1)\<rparr>"
  have r: "cleanup_runtimes d now maxIdle (e # rest) p = cleanup_runtimes d now maxIdle rest p2"
    unfolding e by (simp add: Let_def p1 p1_def p2_def)
  note i1 = manager_only [OF Cons.prems(1) p1_def]
  from Cons.prems(3) e have ws: "warm_slice p k = cs" by simp
  have e1: "warm_slice p1 = warm_slice p" "totalWarm p1 = totalWarm p" "maxPoolSize p1 = maxPoolSize p"
    by (simp_all add: p1_def)
  have sub: "subseq (filter (\<lambda>pc. \<not> is_idle now maxIdle pc) cs) (warm_slice p1 k)"
    unfolding e1 ws by simp
  note s = shrink_inv [OF i1 sub p2_def]
  from Cons.prems(2) e have dk: "distinct (map fst rest)" and nk: "k \<notin> fst ` set rest"
    by simp_all
  have rest: "\<forall>(k', cs') \<in> set rest. warm_slice p2 k' = cs'"
  proof (intro ballI)
    fix x assume x: "x \<in> set rest"
    obtain k' cs' where x': "x = (k', cs')" by (cases x)
    from x x' nk have "k' \<noteq> k" by force
    from warm_slice_update_other [OF this, where p = p1] have "warm_slice p2 k' = warm_slice p k'"
      unfolding p2_def e1 .
    moreover from Cons.prems(3) x x' have "warm_slice p k' = cs'" by auto
    ultimately show "case x of (k', cs') \<Rightarrow> warm_slice p2 k' = cs'"
      unfolding x' by simp
  qed
  from Cons.IH [OF s(1) dk rest] s(2,3) e1 show ?case
    unfolding r by simp
qed

lemma CleanupIdleContainers_inv:
  assumes "pool_inv d p"
  shows "pool_inv d (snd (CleanupIdleContainers d now maxIdle p))
       \<and> totalWarm (snd (CleanupIdleContainers d now maxIdle p)) \<le> totalWarm p
       \<and> maxPoolSize (snd (CleanupIdleContainers d now maxIdle p)) = maxPoolSize p"
proof -
  from assms have dk: "distinct (map fst (warmContainers p))"
    by (simp add: pool_inv_def pool_wf_def)
  have "\<forall>(k, cs) \<in> set (warmContainers p). warm_slice p k = cs"
    using dk by (auto simp: warm_slice_def)
  from cleanup_runtimes_inv [OF assms dk this] show ?thesis
    by (simp add: CleanupIdleContainers_def)
qed

lemma remove_each_fields [simp]:
  "warmContainers (remove_each d l p) = warmContainers p"
  "busyContainers (remove_each d l p) = busyContainers p"
  "maxPoolSize (remove_each d l p) = maxPoolSize p"
  by (induction l arbitrary: p) (simp_all add: mgr_RemoveContainer_def)

lemma shutdown_warm_effect:
  "busyContainers (shutdown_warm d rest p) = busyContainers p
   \<and> maxPoolSize (shutdown_warm d rest p) = maxPoolSize p
   \<and> set (map fst (warmContainers (shutdown_warm d rest p)))
       = set (map fst (warmContainers p)) - set (map fst rest)"
proof (induction rest arbitrary: p)
  case Nil
  show ?case by simp
next
  case (Cons e rest)
  obtain k cs where e: "e = (k, cs)" by (cases e)
  define p2 where "p2 = (remove_each d cs p)\<lparr>warmContainers := AList.delete k (warmContainers (remove_each d cs p))\<rparr>"
  have r: "shutdown_warm d (e # rest) p = shutdown_warm d rest p2"
    unfolding e by (simp add: Let_def p2_def)
  have f: "busyContainers p2 = busyContainers p" "maxPoolSize p2 = maxPoolSize p"
    "set (map fst (warmContainers p2)) = set (map fst (warmContainers p)) - {k}"
    by (simp_all add: p2_def delete_keys)
  from Cons.IH [of p2]
  have "busyContainers (shutdown_warm d rest p2) = busyContainers p
      \<and> maxPoolSize (shutdown_warm d rest p2) = maxPoolSize p
      \<and> set (map fst (warmContainers (shutdown_warm d rest p2)))
          = set (map fst (warmContainers p)) - {k} - set (map fst rest)"
    unfolding f .
  then show ?case
    unfolding r by (auto simp: e)
qed

lemma shutdown_busy_effect:
  "warmContainers (shutdown_busy d rest p) = warmContainers p
   \<and> maxPoolSize (shutdown_busy d rest p) = maxPoolSize p
   \<and> set (map fst (busyContainers (shutdown_busy d rest p)))
       = set (map fst (busyContainers p)) - set (map fst rest)"
proof (induction rest arbitrary: p)
  case Nil
  show ?case by simp
next
  case (Cons e rest)
  obtain k pc where e: "e = (k, pc)" by (cases e)
  define p1 where "p1 = snd (mgr_RemoveContainer d (ID (Container pc)) p)"
  define p2 where "p2 = p1\<lparr>busyContainers := AList.delete k (busyContainers p1)\<rparr>"
  have r: "shutdown_busy d (e # rest) p = shutdown_busy d rest p2"
    unfolding e by (simp add: Let_def p2_def p1_def)
  have f: "warmContainers p2 = warmContainers p" "maxPoolSize p2 = maxPoolSize p"
    "set (map fst (busyContainers p2)) = set (map fst (busyContainers p)) - {k}"
    by (simp_all add: p2_def p1_def delete_keys mgr_RemoveContainer_def)
  from Cons.IH [of p2]
  have "warmContainers (shutdown_busy d rest p2) = warmContainers p
      \<and> maxPoolSize (shutdown_busy d rest p2) = maxPoolSize p
      \<and> set (map fst (busyContainers (shutdown_busy d rest p2)))
          = set (map fst (busyContainers p)) - {k} - set (map fst rest)"
    unfolding f .
  then show ?case
    unfolding r by (auto simp: e)
qed

lemma Shutdown_empties:
  "warmContainers (snd (Shutdown d p)) = [] \<and> busyContainers (snd (Shutdown d p)) = []
   \<and> maxPoolSize (snd (Shutdown d p)) = maxPoolSize p"
proof -
  define p1 where "p1 = shutdown_warm d (warmContainers p) p"
  define p2 where "p2 = shutdown_busy d (busyContainers p1) p1"
  have r: "snd (Shutdown d p) = p2"
    by (simp add: Shutdown_def Let_def p1_def p2_def)
  from shutdown_warm_effect [of d "warmContainers p" p]
  have w1: "set (map fst (warmContainers p1)) = {}" and m1: "maxPoolSize p1 = maxPoolSize p"
    unfolding p1_def by simp_all
  from w1 have w1': "warmContainers p1 = []" by simp
  from shutdown_busy_effect [of d "busyContainers p1" p1]
  have "warmContainers p2 = warmContainers p1" "maxPoolSize p2 = maxPoolSize p1"
    "set (map fst (busyContainers p2)) = {}"
    unfolding p2_def by simp_all
  with w1' m1 show ?thesis
    unfolding r by simp
qed

lemma Shutdown_inv:
  "pool_inv d (snd (Shutdown d p)) \<and> totalWarm (snd (Shutdown d p)) = 0
   \<and> maxPoolSize (snd (Shutdown d p)) = maxPoolSize p"
proof -
  from Shutdown_empties [of d p]
  have e: "warmContainers (snd (Shutdown d p)) = []" "busyContainers (snd (Shutdown d p)) = []"
    "maxPoolSize (snd (Shutdown d p)) = maxPoolSize p"
    by simp_all
  have "Warm (snd (Shutdown d p)) = []" "Busy (snd (Shutdown d p)) = []"
    by (simp_all add: Warm_def warm_all_def Busy_def e)
  then show ?thesis
    by (simp add: pool_inv_def pool_wf_def docker_ids_fresh_def totalWarm_def e)
qed

lemma totalWarm_nonneg: "0 \<le> totalWarm p"
  by (simp add: totalWarm_length)

lemma PrewarmContainers_inv:
  assumes "docker_ids_unique d" and "pool_inv d p"
  shows "pool_inv d (snd (PrewarmContainers d now p))
       \<and> maxPoolSize (snd (PrewarmContainers d now p)) = maxPoolSize p"
  using prewarm_runtimes_inv [OF assms] by (simp add: PrewarmContainers_def)

text \<open>
  A pool with no warm and no busy container, as \<open>NewContainerPool\<close> builds it,
  satisfies the invariant for every daemon.
\<close>

lemma pool_inv_empty:
  "warmContainers p = [] \<Longrightarrow> busyContainers p = [] \<Longrightarrow> pool_inv d p"
  by (simp add: pool_inv_def pool_wf_def docker_ids_fresh_def Warm_def Busy_def warm_all_def)

text \<open>
  C2 (as stated, refuted).  An empty pool with \<open>maxPoolSize = 1\<close>: scaling
  \<open>nodejs:20\<close> up by two, or prewarming with a configured count of two, leaves two warm
  containers.  Neither operation looks at \<open>maxPoolSize\<close>.
\<close>

theorem C2_scale_up_exceeds_cap_counterexample:
  "totalWarm (snd (ScalePool (scenario_docker []) 0 ''nodejs:20'' 2 scenario_empty_pool)) = 2
   \<and> maxPoolSize (snd (ScalePool (scenario_docker []) 0 ''nodejs:20'' 2 scenario_empty_pool)) = 1
   \<and> totalWarm scenario_empty_pool = 0
   \<and> totalWarm (snd (PrewarmContainers (scenario_docker []) 0 scenario_empty_pool)) = 2
   \<and> maxPoolSize (snd (PrewarmContainers (scenario_docker []) 0 scenario_empty_pool)) = 1"
  by (simp add: scenario_prewarm)
    (simp add: ScalePool_def scenario_empty_pool_def scenario_docker_def
      warm_slice_def Let_def numeral_2_eq_2 mgr_CreateContainer_def add_warm_def totalWarm_def)

text \<open>
  C2 (amended).  Let the daemon hand out unique identifiers and let the pool be well
  formed, with disjoint Warm and Busy sets and no identifier that the daemon may still
  hand out.  Then the same holds after each of \<open>GetContainer\<close>, \<open>ReturnContainer\<close>,
  \<open>PrewarmContainers\<close>, \<open>ScalePool\<close>, \<open>CleanupIdleContainers\<close> and \<open>Shutdown\<close>,
  whatever they return; in particular Warm and Busy stay disjoint.  If moreover the number
  of warm containers is at most \<open>maxPoolSize\<close> before the operation, it is so after
  \<open>GetContainer\<close>, \<open>ReturnContainer\<close>, \<open>CleanupIdleContainers\<close>, \<open>Shutdown\<close>, and
  \<open>ScalePool\<close> with a delta that is not positive.
\<close>

theorem C2_pool_invariants:
  assumes "docker_ids_unique d" and "pool_inv d p"
  shows "(\<forall>q \<in> set [snd (GetContainer d now runtime action p),
                     snd (ReturnContainer d now containerID reuse p),
                     snd (PrewarmContainers d now p),
                     snd (ScalePool d now runtime delta p),
                     snd (CleanupIdleContainers d now maxIdle p),
                     snd (Shutdown d p)].
            pool_inv d q \<and> set (Warm q) \<inter> set (Busy q) = {})
       \<and> (totalWarm p \<le> maxPoolSize p \<longrightarrow>
            (\<forall>q \<in> set [snd (GetContainer d now runtime action p),
                        snd (ReturnContainer d now containerID reuse p),
                        snd (CleanupIdleContainers d now maxIdle p),
                        snd (Shutdown d p)].
               totalWarm q \<le> maxPoolSize q)
            \<and> (delta \<le> 0 \<longrightarrow>
                 totalWarm (snd (ScalePool d now runtime delta p))
                   \<le> maxPoolSize (snd (ScalePool d now runtime delta p))))"
proof -
  note g = GetContainer_inv [OF assms, of now runtime action]
  note r = ReturnContainer_inv [OF assms(2), of now containerID reuse]
  note w = PrewarmContainers_inv [OF assms, of now]
  note s = ScalePool_inv [OF assms, of now runtime delta]
  note c = CleanupIdleContainers_inv [OF assms(2), of now maxIdle]
  note h = Shutdown_inv [of d p]
  have inv: "\<forall>q \<in> set [snd (GetContainer d now runtime action p),
                     snd (ReturnContainer d now containerID reuse p),
                     snd (PrewarmContainers d now p),
                     snd (ScalePool d now runtime delta p),
                     snd (CleanupIdleContainers d now maxIdle p),
                     snd (Shutdown d p)].
            pool_inv d q \<and> set (Warm q) \<inter> set (Busy q) = {}"
    using g r w s c h by (simp add: pool_inv_def)
  have cap: "(\<forall>q \<in> set [snd (GetContainer d now runtime action p),
                        snd (ReturnContainer d now containerID reuse p),
                        snd (CleanupIdleContainers d now maxIdle p),
                        snd (Shutdown d p)].
               totalWarm q \<le> maxPoolSize q)
            \<and> (delta \<le> 0 \<longrightarrow>
                 totalWarm (snd (ScalePool d now runtime delta p))
                   \<le> maxPoolSize (snd (ScalePool d now runtime delta p)))"
    if t: "totalWarm p \<le> maxPoolSize p"
  proof -
    from totalWarm_nonneg [of p] t have m: "0 \<le> maxPoolSize p" by simp
    from g t have 1: "totalWarm (snd (GetContainer d now runtime action p))
        \<le> maxPoolSize (snd (GetContainer d now runtime action p))" by simp
    from r t have 2: "totalWarm (snd (ReturnContainer d now containerID reuse p))
        \<le> maxPoolSize (snd (ReturnContainer d now containerID reuse p))" by simp
    from c t have 3: "totalWarm (snd (CleanupIdleContainers d now maxIdle p))
        \<le> maxPoolSize (snd (CleanupIdleContainers d now maxIdle p))" by simp
    from h m have 4: "totalWarm (snd (Shutdown d p)) \<le> maxPoolSize (snd (Shutdown d p))" by simp
    from s t have 5: "delta \<le> 0 \<longrightarrow>
                 totalWarm (snd (ScalePool d now runtime delta p))
                   \<le> maxPoolSize (snd (ScalePool d now runtime delta p))" by auto
    from 1 2 3 4 5 show ?thesis by simp
  qed
  from inv cap show ?thesis by blast
qed

lemma scenario_docker_unique: "docker_ids_unique (scenario_docker failing)"
  unfolding docker_ids_unique_def
proof (intro allI impI)
  fix h h' :: "mgr_call list" and r r' c c'
  assume a: "strict_prefix h h' \<and> create_outcome (scenario_docker failing) h r = Inr c
      \<and> create_outcome (scenario_docker failing) h' r' = Inr c'"
  then have "length h < length h'"
    by (simp add: prefix_length_less)
  moreover from a have "ID c = ''new'' @ replicate (length h) (CHR ''+'')"
    "ID c' = ''new'' @ replicate (length h') (CHR ''+'')"
    by (auto simp: scenario_docker_def)
  ultimately show "ID c \<noteq> ID c'"
    by (metis length_append length_replicate nat_neq_iff add_left_cancel)
qed

lemma scenario_full_pool_inv: "pool_inv (scenario_docker failing) scenario_full_pool"
proof -
  have W: "Warm scenario_full_pool = [''c1'', ''c2'']" and B: "Busy scenario_full_pool = [''c3'']"
    by (simp_all add: Warm_def warm_all_def Busy_def scenario_full_pool_def scenario_A_def
        scenario_B_def scenario_C_def)
  have wf: "pool_wf scenario_full_pool"
    unfolding pool_wf_def W
    by (simp add: scenario_full_pool_def scenario_C_def)
  have fr: "docker_ids_fresh (scenario_docker failing) scenario_full_pool"
    unfolding docker_ids_fresh_def W B
    by (auto simp: scenario_docker_def)
  from wf fr show ?thesis
    unfolding pool_inv_def W B by simp
qed

text \<open>
  The full pool of the scenario satisfies the hypotheses; returning \<open>c3\<close> to it keeps
  Warm and Busy disjoint and the warm count within the cap.
\<close>

theorem C2_pool_invariants_witness:
  "set (Warm (snd (ReturnContainer (scenario_docker []) 9 ''c3'' True scenario_full_pool)))
     \<inter> set (Busy (snd (ReturnContainer (scenario_docker []) 9 ''c3'' True scenario_full_pool))) = {}
   \<and> totalWarm (snd (ReturnContainer (scenario_docker []) 9 ''c3'' True scenario_full_pool))
       \<le> maxPoolSize (snd (ReturnContainer (scenario_docker []) 9 ''c3'' True scenario_full_pool))
   \<and> totalWarm scenario_full_pool \<le> maxPoolSize scenario_full_pool"
proof -
  have t: "totalWarm scenario_full_pool \<le> maxPoolSize scenario_full_pool"
    by (simp add: totalWarm_def scenario_full_pool_def)
  from C2_pool_invariants [OF scenario_docker_unique scenario_full_pool_inv,
      of "[]" 9 "''nodejs:20''" "''A''" "''c3''" True 0 600] t
  show ?thesis by simp
qed

section \<open>Properties of the runtime proxy\<close>

text \<open>
  C7 (as stated, refuted).  A cancelled context gives the same error type as a refused
  connection, \<open>ContainerError\<close>, not the timeout type; a body that cannot be read does
  not give \<open>ContainerError\<close>: with status 500 or 404 the call fails with
  \<open>InitializationError\<close> (one type for both status classes), and with status 200 it
  succeeds.
\<close>

theorem C7_cancel_and_read_error_counterexample:
  "Init \<lparr>timeout = 60\<rparr> (DoFails ''context canceled'' CtxCanceled)
     = Some (ContainerError ''failed to connect to runtime container'' (Some ''context canceled''))
   \<and> Init \<lparr>timeout = 60\<rparr> (DoFails ''connection refused'' CtxNoError)
     = Some (ContainerError ''failed to connect to runtime container'' (Some ''connection refused''))
   \<and> Init \<lparr>timeout = 60\<rparr> (Responded 500 None)
     = Some (InitializationError ''init request returned non-200 status'' 500 [])
   \<and> Init \<lparr>timeout = 60\<rparr> (Responded 404 None)
     = Some (InitializationError ''init request returned non-200 status'' 404 [])
   \<and> Init \<lparr>timeout = 60\<rparr> (Responded 200 None) = None"
  by (simp add: Init_def)

text \<open>
  C7 (amended).  \<open>Init\<close> fails with one of three error types, and each type tells what
  happened: \<open>InitializationError\<close> carries the status code of a non-200 response (4xx and
  5xx alike, with the body, empty when it could not be read) or status 0 when the request
  could not be built; \<open>TimeoutError\<close> means that sending failed and the context's deadline
  had been exceeded; \<open>ContainerError\<close> means that sending failed for any other reason,
  cancellation included.  \<open>Init\<close> succeeds exactly on a 200 response, readable or not.
\<close>

theorem C7_Init_classification:
  "(case Init rp x of
      None \<Rightarrow> (\<exists>read. x = Responded 200 read)
    | Some (InitializationError m s b) \<Rightarrow>
        (x = MarshalFails \<and> s = 0) \<or> (x = NewRequestFails \<and> s = 0)
        \<or> (\<exists>read. x = Responded s read \<and> s \<noteq> 200 \<and> b = (case read of None \<Rightarrow> [] | Some t \<Rightarrow> t))
    | Some (TimeoutError m t) \<Rightarrow> (\<exists>e. x = DoFails e CtxDeadlineExceeded) \<and> t = timeout rp
    | Some (ContainerError m c) \<Rightarrow> (\<exists>e ce. x = DoFails e ce \<and> ce \<noteq> CtxDeadlineExceeded \<and> c = Some e)
    | Some (ExecutionError m s b) \<Rightarrow> False)"
  by (cases x) (auto simp: Init_def Let_def)

theorem C7_Init_classification_witness:
  "\<exists>e ce. DoFails ''context canceled'' CtxCanceled = DoFails e ce \<and> ce \<noteq> CtxDeadlineExceeded
      \<and> Some ''context canceled'' = Some e"
  using C7_Init_classification [where rp = "\<lparr>timeout = 60\<rparr>" and x = "DoFails ''context canceled'' CtxCanceled"]
  by (simp add: Init_def)

section \<open>Properties of the executor and the consumer\<close>

lemma HandleInvocation_after_init:
  assumes "ee_pool_get env = Inr (cont, cold)"
    and "fetchCode F (ee_fetch env) = Inr code"
    and "cold \<Longrightarrow> Init rp (ee_init env) = None"
  shows "HandleInvocation F rp env msg =
           (fst (run_phase F rp env msg cont), fst (snd (run_phase F rp env msg cont)),
            [EvPoolGet (em_Runtime msg), EvFetchCode (em_CodeURL msg)]
              @ (if cold then [EvInit (ID cont)] else [])
              @ snd (snd (run_phase F rp env msg cont)))"
  using assms by (cases cold) (simp_all add: HandleInvocation_def split: prod.splits)

lemma run_phase_decoded:
  "Run rp (ee_unmarshal env) (ee_run env) = Inr runResp \<Longrightarrow>
     \<exists>r. run_phase F rp env msg cont =
            (Some r,
             (case ee_publish env of None \<Rightarrow> None | Some err \<Rightarrow> Some (''failed to publish result: '' @ err)),
             [EvRun (ID cont), EvCollectLogs (ID cont), EvPublishResult r, EvPoolReturn (ID cont)])
        \<and> er_Response r = \<lparr>xr_StatusCode = StatusCode runResp, xr_Result = Result runResp\<rparr>"
  by (simp add: run_phase_def Let_def split: option.splits)

lemma Run_cases:
  "Run rp unmarshal x =
     (case x of
        MarshalFails \<Rightarrow> Inl (ExecutionError ''failed to marshal run payload'' 0 [])
      | NewRequestFails \<Rightarrow> Inl (ExecutionError ''failed to create run request'' 0 [])
      | DoFails err cerr \<Rightarrow>
          Inl (if cerr = CtxDeadlineExceeded then TimeoutError ''run request timed out'' (timeout rp)
               else ContainerError ''failed to connect to runtime container'' (Some err))
      | Responded status None \<Rightarrow> Inl (ExecutionError ''failed to read run response'' 0 [])
      | Responded status (Some body) \<Rightarrow>
          (if status \<noteq> 200
           then Inl (ExecutionError ''run request returned non-200 status'' status body)
           else (case unmarshal body of
                   None \<Rightarrow> Inl (ExecutionError ''failed to parse run response'' 0 body)
                 | Some result \<Rightarrow> Inr result)))"
  by (simp add: Run_def split: http_exchange.splits option.splits)

lemma run_phase_error:
  "Run rp (ee_unmarshal env) (ee_run env) = Inl e \<Longrightarrow>
     run_phase F rp env msg cont =
       (None, Some (''failed to run action: '' @ Error_text F e), [EvRun (ID cont), EvPoolRemove (ID cont)])"
  by (simp add: run_phase_def)

lemma run_phase_events:
  "\<exists>rest. snd (snd (run_phase F rp env msg cont)) = EvRun (ID cont) # rest \<and> (\<forall>c. EvInit c \<notin> set rest)
      \<and> (\<forall>u. EvFetchCode u \<notin> set rest)"
  by (simp add: run_phase_def Let_def split: sum.splits option.splits)

lemma HandleInvocation_events:
  assumes "ee_pool_get env = Inr (cont, cold)"
  shows "snd (snd (HandleInvocation F rp env msg)) =
           [EvPoolGet (em_Runtime msg), EvFetchCode (em_CodeURL msg)]
           @ (case fetchCode F (ee_fetch env) of
                Inl err \<Rightarrow> [EvPoolRemove (ID cont)]
              | Inr code \<Rightarrow>
                  (if cold then
                     EvInit (ID cont) #
                       (case Init rp (ee_init env) of
                          Some err \<Rightarrow> [EvPoolRemove (ID cont)]
                        | None \<Rightarrow> snd (snd (run_phase F rp env msg cont)))
                   else snd (snd (run_phase F rp env msg cont))))"
  using assms by (simp add: HandleInvocation_def split: sum.splits option.splits prod.splits)

lemma processMessage_handled:
  assumes "parseInvocationMessage env (xm_Values msg) = Inr invMsg"
    and "\<not> ce_now env > im_Deadline invMsg"
  shows "processMessage env msg =
           [EvHandleInvocation invMsg]
           @ snd (publishResult env (case ce_handler env invMsg of
                                      Inl err \<Rightarrow> error_result env invMsg err | Inr r \<Rightarrow> r))
           @ [XAck StreamName GroupName (xm_ID msg) (ce_xack_ok env)]"
  using assms by (simp add: processMessage_def ackMessage_def Let_def)

text \<open>
  C4 (as stated, refuted).  The warm scenario: \<open>/run\<close> answers 200 with a JSON body that
  has an \<open>error\<close> field, which \<open>Run\<close> decodes.  The activation's response status-code is
  0, not 1, and \<open>HandleInvocation\<close> returns no error.
\<close>

theorem C4_error_field_counterexample:
  "Run \<lparr>timeout = 60\<rparr> (ee_unmarshal scenario_warm) (ee_run scenario_warm)
     = Inr \<lparr>Result = None, Error = ''nope'', StatusCode = 0\<rparr>
   \<and> map_option (\<lambda>r. xr_StatusCode (er_Response r))
       (fst (HandleInvocation scenario_fmt \<lparr>timeout = 60\<rparr> scenario_warm scenario_msg))
     = Some 0
   \<and> fst (snd (HandleInvocation scenario_fmt \<lparr>timeout = 60\<rparr> scenario_warm scenario_msg)) = None"
  by (simp add: HandleInvocation_def fetchCode_def run_phase_def Run_def Let_def
      scenario_warm_def scenario_msg_def)

text \<open>
  C4 (amended).  Once a container is there and initialized, the executor does not classify
  the outcome of \<open>/run\<close>.  For a 200 response whose body decodes to a \<open>RunResult\<close>,
  \<open>HandleInvocation\<close> returns, and hands to its publisher, a result whose response
  status-code is that \<open>RunResult\<close>'s \<open>StatusCode\<close> (the body's \<open>statusCode\<close> field, zero
  when absent) and whose result is the decoded \<open>Result\<close>, whether or not the body has an
  \<open>error\<close> field; it returns no error when the publisher succeeded, and the error
  \<open>failed to publish result: \<close> followed by the publisher's error, next to the result,
  when it failed.  For every other outcome (a non-200 status such as 5xx, a body that
  cannot be read or decoded, a timeout, a failed connection, a payload or request that
  cannot be built) \<open>HandleInvocation\<close> returns no result, publishes nothing, and returns
  an error whose text is \<open>failed to run action: \<close> followed by the proxy error; for a
  timeout this is not the text
  \<open>The action did not produce a response within the allowed time.\<close>  The consumer, for a
  message that parses and is within its deadline: when its handler returns an error \<open>e\<close>
  (as \<open>HandleInvocation\<close> does in all the failing cases, a failed publish included) it
  publishes a result with status-code 500 and error \<open>e\<close>; when the handler returns a
  result without error it publishes that result as it is.
\<close>

theorem C4_run_outcome_not_classified:
  assumes "ee_pool_get env = Inr (cont, cold)"
    and "fetchCode F (ee_fetch env) = Inr code"
    and "cold \<Longrightarrow> Init rp (ee_init env) = None"
  shows "(case ee_run env of
            Responded status read \<Rightarrow>
              (case read of
                 Some body \<Rightarrow>
                   (if status = 200 then
                      (case ee_unmarshal env body of
                         Some runResp \<Rightarrow>
                           (\<exists>r. fst (HandleInvocation F rp env msg) = Some r
                              \<and> xr_StatusCode (er_Response r) = StatusCode runResp
                              \<and> xr_Result (er_Response r) = Result runResp
                              \<and> EvPublishResult r \<in> set (snd (snd (HandleInvocation F rp env msg))))
                           \<and> fst (snd (HandleInvocation F rp env msg)) =
                               (case ee_publish env of
                                  None \<Rightarrow> None
                                | Some err \<Rightarrow> Some (''failed to publish result: '' @ err))
                       | None \<Rightarrow>
                           fst (HandleInvocation F rp env msg) = None
                           \<and> fst (snd (HandleInvocation F rp env msg)) =
                               Some (''failed to run action: '' @ Error_text F
                                       (ExecutionError ''failed to parse run response'' 0 body))
                           \<and> (\<forall>r. EvPublishResult r \<notin> set (snd (snd (HandleInvocation F rp env msg)))))
                    else
                      fst (HandleInvocation F rp env msg) = None
                      \<and> fst (snd (HandleInvocation F rp env msg)) =
                          Some (''failed to run action: '' @ Error_text F
                                  (ExecutionError ''run request returned non-200 status'' status body))
                      \<and> (\<forall>r. EvPublishResult r \<notin> set (snd (snd (HandleInvocation F rp env msg)))))
               | None \<Rightarrow>
                   fst (HandleInvocation F rp env msg) = None
                   \<and> fst (snd (HandleInvocation F rp env msg)) =
                       Some (''failed to run action: '' @ Error_text F
                               (ExecutionError ''failed to read run response'' 0 []))
                   \<and> (\<forall>r. EvPublishResult r \<notin> set (snd (snd (HandleInvocation F rp env msg)))))
          | DoFails err cerr \<Rightarrow>
              fst (HandleInvocation F rp env msg) = None
              \<and> fst (snd (HandleInvocation F rp env msg)) =
                  Some (''failed to run action: '' @ Error_text F
                          (if cerr = CtxDeadlineExceeded then TimeoutError ''run request timed out'' (timeout rp) else ContainerError ''failed to connect to runtime container'' (Some err)))
              \<and> (\<forall>r. EvPublishResult r \<notin> set (snd (snd (HandleInvocation F rp env msg))))
              \<and> fst (snd (HandleInvocation F rp env msg)) \<noteq>
                  Some ''The action did not produce a response within the allowed time.''
          | MarshalFails \<Rightarrow>
              fst (HandleInvocation F rp env msg) = None
              \<and> fst (snd (HandleInvocation F rp env msg)) =
                  Some (''failed to run action: '' @ Error_text F
                          (ExecutionError ''failed to marshal run payload'' 0 []))
              \<and> (\<forall>r. EvPublishResult r \<notin> set (snd (snd (HandleInvocation F rp env msg))))
          | NewRequestFails \<Rightarrow>
              fst (HandleInvocation F rp env msg) = None
              \<and> fst (snd (HandleInvocation F rp env msg)) =
                  Some (''failed to run action: '' @ Error_text F
                          (ExecutionError ''failed to create run request'' 0 []))
              \<and> (\<forall>r. EvPublishResult r \<notin> set (snd (snd (HandleInvocation F rp env msg)))))
       \<and> (\<forall>cenv xmsg invMsg.
            parseInvocationMessage cenv (xm_Values xmsg) = Inr invMsg
            \<and> \<not> ce_now cenv > im_Deadline invMsg
            \<longrightarrow> (case ce_handler cenv invMsg of
                   Inl e \<Rightarrow>
                     processMessage cenv xmsg =
                       [EvHandleInvocation invMsg]
                       @ snd (publishResult cenv (error_result cenv invMsg e))
                       @ [XAck StreamName GroupName (xm_ID xmsg) (ce_xack_ok cenv)]
                     \<and> rsp_StatusCode (ar_Response (error_result cenv invMsg e)) = 500
                     \<and> rsp_Error (ar_Response (error_result cenv invMsg e)) = e
                 | Inr r \<Rightarrow>
                     processMessage cenv xmsg =
                       [EvHandleInvocation invMsg]
                       @ snd (publishResult cenv r)
                       @ [XAck StreamName GroupName (xm_ID xmsg) (ce_xack_ok cenv)]))"
proof -
  note H = HandleInvocation_after_init [OF assms, of msg]
  have exec: "(case Run rp (ee_unmarshal env) (ee_run env) of
            Inr runResp \<Rightarrow>
              (\<exists>r. fst (HandleInvocation F rp env msg) = Some r
                 \<and> xr_StatusCode (er_Response r) = StatusCode runResp
                 \<and> xr_Result (er_Response r) = Result runResp
                 \<and> EvPublishResult r \<in> set (snd (snd (HandleInvocation F rp env msg))))
              \<and> fst (snd (HandleInvocation F rp env msg)) =
                  (case ee_publish env of
                     None \<Rightarrow> None
                   | Some err \<Rightarrow> Some (''failed to publish result: '' @ err))
          | Inl e \<Rightarrow>
              fst (HandleInvocation F rp env msg) = None
              \<and> fst (snd (HandleInvocation F rp env msg)) =
                  Some (''failed to run action: '' @ Error_text F e)
              \<and> (\<forall>r. EvPublishResult r \<notin> set (snd (snd (HandleInvocation F rp env msg)))))"
  proof (cases "Run rp (ee_unmarshal env) (ee_run env)")
    case (Inl e)
    from run_phase_error [OF Inl, of F msg cont] H
    have "fst (HandleInvocation F rp env msg) = None"
      "fst (snd (HandleInvocation F rp env msg)) = Some (''failed to run action: '' @ Error_text F e)"
      "snd (snd (HandleInvocation F rp env msg)) =
         [EvPoolGet (em_Runtime msg), EvFetchCode (em_CodeURL msg)]
              @ (if cold then [EvInit (ID cont)] else []) @ [EvRun (ID cont), EvPoolRemove (ID cont)]"
      by simp_all
    with Inl show ?thesis by simp
  next
    case (Inr runResp)
    from run_phase_decoded [OF Inr, of F msg cont]
    obtain r where r: "run_phase F rp env msg cont =
            (Some r,
             (case ee_publish env of None \<Rightarrow> None | Some err \<Rightarrow> Some (''failed to publish result: '' @ err)),
             [EvRun (ID cont), EvCollectLogs (ID cont), EvPublishResult r, EvPoolReturn (ID cont)])"
      and resp: "er_Response r = \<lparr>xr_StatusCode = StatusCode runResp, xr_Result = Result runResp\<rparr>"
      by blast
    from H r have "fst (HandleInvocation F rp env msg) = Some r"
      "fst (snd (HandleInvocation F rp env msg)) =
         (case ee_publish env of None \<Rightarrow> None | Some err \<Rightarrow> Some (''failed to publish result: '' @ err))"
      "EvPublishResult r \<in> set (snd (snd (HandleInvocation F rp env msg)))"
      by simp_all
    with Inr resp show ?thesis by simp
  qed
  have main: "(case ee_run env of
            Responded status read \<Rightarrow>
              (case read of
                 Some body \<Rightarrow>
                   (if status = 200 then
                      (case ee_unmarshal env body of
                         Some runResp \<Rightarrow>
                           (\<exists>r. fst (HandleInvocation F rp env msg) = Some r
                              \<and> xr_StatusCode (er_Response r) = StatusCode runResp
                              \<and> xr_Result (er_Response r) = Result runResp
                              \<and> EvPublishResult r \<in> set (snd (snd (HandleInvocation F rp env msg))))
                           \<and> fst (snd (HandleInvocation F rp env msg)) =
                               (case ee_publish env of
                                  None \<Rightarrow> None
                                | Some err \<Rightarrow> Some (''failed to publish result: '' @ err))
                       | None \<Rightarrow>
                           fst (HandleInvocation F rp env msg) = None
                           \<and> fst (snd (HandleInvocation F rp env msg)) =
                               Some (''failed to run action: '' @ Error_text F
                                       (ExecutionError ''failed to parse run response'' 0 body))
                           \<and> (\<forall>r. EvPublishResult r \<notin> set (snd (snd (HandleInvocation F rp env msg)))))
                    else
                      fst (HandleInvocation F rp env msg) = None
                      \<and> fst (snd (HandleInvocation F rp env msg)) =
                          Some (''failed to run action: '' @ Error_text F
                                  (ExecutionError ''run request returned non-200 status'' status body))
                      \<and> (\<forall>r. EvPublishResult r \<notin> set (snd (snd (HandleInvocation F rp env msg)))))
               | None \<Rightarrow>
                   fst (HandleInvocation F rp env msg) = None
                   \<and> fst (snd (HandleInvocation F rp env msg)) =
                       Some (''failed to run action: '' @ Error_text F
                               (ExecutionError ''failed to read run response'' 0 []))
                   \<and> (\<forall>r. EvPublishResult r \<notin> set (snd (snd (HandleInvocation F rp env msg)))))
          | DoFails err cerr \<Rightarrow>
              fst (HandleInvocation F rp env msg) = None
              \<and> fst (snd (HandleInvocation F rp env msg)) =
                  Some (''failed to run action: '' @ Error_text F
                          (if cerr = CtxDeadlineExceeded then TimeoutError ''run request timed out'' (timeout rp) else ContainerError ''failed to connect to runtime container'' (Some err)))
              \<and> (\<forall>r. EvPublishResult r \<notin> set (snd (snd (HandleInvocation F rp env msg))))
              \<and> fst (snd (HandleInvocation F rp env msg)) \<noteq>
                  Some ''The action did not produce a response within the allowed time.''
          | MarshalFails \<Rightarrow>
              fst (HandleInvocation F rp env msg) = None
              \<and> fst (snd (HandleInvocation F rp env msg)) =
                  Some (''failed to run action: '' @ Error_text F
                          (ExecutionError ''failed to marshal run payload'' 0 []))
              \<and> (\<forall>r. EvPublishResult r \<notin> set (snd (snd (HandleInvocation F rp env msg))))
          | NewRequestFails \<Rightarrow>
              fst (HandleInvocation F rp env msg) = None
              \<and> fst (snd (HandleInvocation F rp env msg)) =
                  Some (''failed to run action: '' @ Error_text F
                          (ExecutionError ''failed to create run request'' 0 []))
              \<and> (\<forall>r. EvPublishResult r \<notin> set (snd (snd (HandleInvocation F rp env msg)))))"
    using exec
    by (cases "ee_run env") (auto simp: Run_cases split: option.splits if_splits)
  have cons: "(\<forall>cenv xmsg invMsg.
            parseInvocationMessage cenv (xm_Values xmsg) = Inr invMsg
            \<and> \<not> ce_now cenv > im_Deadline invMsg
            \<longrightarrow> (case ce_handler cenv invMsg of
                   Inl e \<Rightarrow>
                     processMessage cenv xmsg =
                       [EvHandleInvocation invMsg]
                       @ snd (publishResult cenv (error_result cenv invMsg e))
                       @ [XAck StreamName GroupName (xm_ID xmsg) (ce_xack_ok cenv)]
                     \<and> rsp_StatusCode (ar_Response (error_result cenv invMsg e)) = 500
                     \<and> rsp_Error (ar_Response (error_result cenv invMsg e)) = e
                 | Inr r \<Rightarrow>
                     processMessage cenv xmsg =
                       [EvHandleInvocation invMsg]
                       @ snd (publishResult cenv r)
                       @ [XAck StreamName GroupName (xm_ID xmsg) (ce_xack_ok cenv)]))"
    by (auto simp: processMessage_handled error_result_def split: sum.splits)
  from main cons show ?thesis
    by (rule conjI)
qed

text \<open>
  The warm scenario with a publisher that succeeds and with one that fails, and the
  consumer's answer to the error of the second.
\<close>

theorem C4_run_outcome_not_classified_witness:
  "(\<exists>r. fst (HandleInvocation scenario_fmt \<lparr>timeout = 60\<rparr> scenario_warm scenario_msg) = Some r
       \<and> xr_StatusCode (er_Response r) = 0 \<and> xr_Result (er_Response r) = None)
   \<and> fst (snd (HandleInvocation scenario_fmt \<lparr>timeout = 60\<rparr> scenario_warm scenario_msg)) = None
   \<and> (\<exists>r. fst (HandleInvocation scenario_fmt \<lparr>timeout = 60\<rparr>
                (scenario_warm\<lparr>ee_publish := Some ''redis down''\<rparr>) scenario_msg) = Some r
       \<and> xr_StatusCode (er_Response r) = 0)
   \<and> fst (snd (HandleInvocation scenario_fmt \<lparr>timeout = 60\<rparr>
                (scenario_warm\<lparr>ee_publish := Some ''redis down''\<rparr>) scenario_msg))
       = Some ''failed to publish result: redis down''
   \<and> processMessage (scenario_consumer 1000 (Inl ''failed to publish result: redis down'') True) scenario_xmessage =
       [EvHandleInvocation scenario_invocation]
       @ snd (publishResult (scenario_consumer 1000 (Inl ''failed to publish result: redis down'') True)
               (error_result (scenario_consumer 1000 (Inl ''failed to publish result: redis down'') True)
                  scenario_invocation ''failed to publish result: redis down''))
       @ [XAck StreamName GroupName ''1-0'' True]
   \<and> rsp_StatusCode (ar_Response (error_result (scenario_consumer 1000 (Inl ''failed to publish result: redis down'') True)
        scenario_invocation ''failed to publish result: redis down'')) = 500"
proof -
  have a: "ee_pool_get scenario_warm = Inr (\<lparr>ID = ''c1'', IP = ''10.0.0.2''\<rparr>, False)"
    and b: "fetchCode scenario_fmt (ee_fetch scenario_warm) = Inr scenario_code"
    by (simp_all add: scenario_warm_def fetchCode_def)
  have a': "ee_pool_get (scenario_warm\<lparr>ee_publish := Some ''redis down''\<rparr>)
      = Inr (\<lparr>ID = ''c1'', IP = ''10.0.0.2''\<rparr>, False)"
    and b': "fetchCode scenario_fmt (ee_fetch (scenario_warm\<lparr>ee_publish := Some ''redis down''\<rparr>))
      = Inr scenario_code"
    by (simp_all add: scenario_warm_def fetchCode_def)
  have c: "False \<Longrightarrow> Init \<lparr>timeout = 60\<rparr> (ee_init env) = None" for env
    by simp
  have d: "parseInvocationMessage (scenario_consumer 1000 (Inl ''failed to publish result: redis down'') True)
             (xm_Values scenario_xmessage) = Inr scenario_invocation"
    "\<not> ce_now (scenario_consumer 1000 (Inl ''failed to publish result: redis down'') True) > im_Deadline scenario_invocation"
    "ce_handler (scenario_consumer 1000 (Inl ''failed to publish result: redis down'') True) scenario_invocation
       = Inl ''failed to publish result: redis down''"
    "xm_ID scenario_xmessage = ''1-0''"
    "ce_xack_ok (scenario_consumer 1000 (Inl ''failed to publish result: redis down'') True) = True"
    by (simp_all add: parseInvocationMessage_def scenario_consumer_def scenario_xmessage_def
        scenario_invocation_def)
  have run: "ee_run scenario_warm = Responded 200 (Some scenario_run_body)"
    "ee_unmarshal scenario_warm scenario_run_body = Some \<lparr>Result = None, Error = ''nope'', StatusCode = 0\<rparr>"
    "ee_publish scenario_warm = None"
    by (simp_all add: scenario_warm_def)
  have run': "ee_run (scenario_warm\<lparr>ee_publish := Some ''redis down''\<rparr>) = Responded 200 (Some scenario_run_body)"
    "ee_unmarshal (scenario_warm\<lparr>ee_publish := Some ''redis down''\<rparr>) scenario_run_body
       = Some \<lparr>Result = None, Error = ''nope'', StatusCode = 0\<rparr>"
    "ee_publish (scenario_warm\<lparr>ee_publish := Some ''redis down''\<rparr>) = Some ''redis down''"
    by (simp_all add: scenario_warm_def)
  note T = C4_run_outcome_not_classified [OF a b c, of scenario_msg]
  note T' = C4_run_outcome_not_classified [OF a' b' c, of scenario_msg]
  from T [THEN conjunct1]
  have 1: "(\<exists>r. fst (HandleInvocation scenario_fmt \<lparr>timeout = 60\<rparr> scenario_warm scenario_msg) = Some r
       \<and> xr_StatusCode (er_Response r) = 0 \<and> xr_Result (er_Response r) = None)
     \<and> fst (snd (HandleInvocation scenario_fmt \<lparr>timeout = 60\<rparr> scenario_warm scenario_msg)) = None"
    by (auto simp: run)
  from T' [THEN conjunct1]
  have 2: "(\<exists>r. fst (HandleInvocation scenario_fmt \<lparr>timeout = 60\<rparr>
                (scenario_warm\<lparr>ee_publish := Some ''redis down''\<rparr>) scenario_msg) = Some r
       \<and> xr_StatusCode (er_Response r) = 0)
     \<and> fst (snd (HandleInvocation scenario_fmt \<lparr>timeout = 60\<rparr>
                (scenario_warm\<lparr>ee_publish := Some ''redis down''\<rparr>) scenario_msg))
       = Some ''failed to publish result: redis down''"
    by (auto simp: run run')
  from T [THEN conjunct2, rule_format, of "scenario_consumer 1000 (Inl ''failed to publish result: redis down'') True"
      scenario_xmessage scenario_invocation] d
  have 3: "processMessage (scenario_consumer 1000 (Inl ''failed to publish result: redis down'') True) scenario_xmessage =
       [EvHandleInvocation scenario_invocation]
       @ snd (publishResult (scenario_consumer 1000 (Inl ''failed to publish result: redis down'') True)
               (error_result (scenario_consumer 1000 (Inl ''failed to publish result: redis down'') True)
                  scenario_invocation ''failed to publish result: redis down''))
       @ [XAck StreamName GroupName ''1-0'' True]
     \<and> rsp_StatusCode (ar_Response (error_result (scenario_consumer 1000 (Inl ''failed to publish result: redis down'') True)
        scenario_invocation ''failed to publish result: redis down'')) = 500"
    by simp
  from 1 2 3 show ?thesis
    by (intro conjI) (elim conjE, assumption)+
qed

text \<open>
  C8 (as stated, refuted).  The warm scenario again: the pool hands out a warm container
  (cold start is false), and the executor's first call after that is the code fetch;
  \<open>/run\<close> comes third.
\<close>

theorem C8_warm_fetches_code_counterexample:
  "take 3 (snd (snd (HandleInvocation scenario_fmt \<lparr>timeout = 60\<rparr> scenario_warm scenario_msg)))
     = [EvPoolGet ''nodejs:20'', EvFetchCode ''http://minio/A'', EvRun ''c1'']"
  by (simp add: HandleInvocation_def fetchCode_def run_phase_def Run_def Let_def
      scenario_warm_def scenario_msg_def)

text \<open>
  C8 (amended).  Whenever the pool hands out a container, cold or warm, the executor
  fetches the action code, once, directly after the pool's answer.  \<open>/init\<close> is called
  only on a cold start (once, directly after a successful fetch).  With a warm container
  there is no \<open>/init\<close> call at all, and \<open>/run\<close> directly follows a successful fetch.
\<close>

theorem C8_fetch_always_init_only_cold:
  assumes "ee_pool_get env = Inr (cont, cold)"
  shows "\<exists>rest. snd (snd (HandleInvocation F rp env msg)) =
                  EvPoolGet (em_Runtime msg) # EvFetchCode (em_CodeURL msg) # rest
          \<and> (\<forall>u. EvFetchCode u \<notin> set rest)
          \<and> (if cold then
                (case fetchCode F (ee_fetch env) of
                   Inl err \<Rightarrow> rest = [EvPoolRemove (ID cont)]
                 | Inr code \<Rightarrow> \<exists>rest'. rest = EvInit (ID cont) # rest' \<and> (\<forall>c. EvInit c \<notin> set rest'))
              else
                (\<forall>c. EvInit c \<notin> set rest)
                \<and> (case fetchCode F (ee_fetch env) of
                     Inl err \<Rightarrow> rest = [EvPoolRemove (ID cont)]
                   | Inr code \<Rightarrow> \<exists>rest'. rest = EvRun (ID cont) # rest'))"
proof -
  obtain rr where rr: "snd (snd (run_phase F rp env msg cont)) = EvRun (ID cont) # rr"
    "\<forall>c. EvInit c \<notin> set rr" "\<forall>u. EvFetchCode u \<notin> set rr"
    using run_phase_events [of F rp env msg cont] by blast
  show ?thesis
  proof (cases "fetchCode F (ee_fetch env)")
    case (Inl err)
    with HandleInvocation_events [OF assms, of F rp msg] show ?thesis by simp
  next
    case (Inr code)
    show ?thesis
    proof (cases cold)
      case False
      with Inr rr HandleInvocation_events [OF assms, of F rp msg] show ?thesis by simp
    next
      case True
      with Inr rr HandleInvocation_events [OF assms, of F rp msg] show ?thesis
        by (cases "Init rp (ee_init env)") simp_all
    qed
  qed
qed

theorem C8_fetch_always_init_only_cold_witness:
  "\<exists>rest. snd (snd (HandleInvocation scenario_fmt \<lparr>timeout = 60\<rparr> scenario_warm scenario_msg)) =
                  EvPoolGet ''nodejs:20'' # EvFetchCode ''http://minio/A'' # rest
          \<and> (\<exists>rest'. rest = EvRun ''c1'' # rest')"
  using C8_fetch_always_init_only_cold [of scenario_warm "\<lparr>ID = ''c1'', IP = ''10.0.0.2''\<rparr>" False
      scenario_fmt "\<lparr>timeout = 60\<rparr>" scenario_msg]
  by (auto simp: scenario_warm_def scenario_msg_def fetchCode_def)

text \<open>
  C3 (as stated, refuted).  The message parses, its deadline (5000) is ahead of the clock
  (1000) and the handler returns a result, but \<open>XADD\<close> fails: the failure is logged, the
  message is acknowledged all the same, and no entry has reached the activations stream.
\<close>

theorem C3_failed_publish_counterexample:
  "processMessage (scenario_consumer 1000 (Inr scenario_result) False) scenario_xmessage =
     [EvHandleInvocation scenario_invocation,
      XAdd ''penguinwhisk:activations''
        \<lparr>xv_activation_id = ''a1'', xv_namespace = ''guest'', xv_success = True,
         xv_data = scenario_result\<rparr> False,
      XAck ''penguinwhisk:invocations'' ''invokers'' ''1-0'' True]"
  by (simp add: processMessage_def parseInvocationMessage_def publishResult_def ackMessage_def
      scenario_consumer_def scenario_xmessage_def scenario_invocation_def scenario_result_def
      StreamName_def GroupName_def ActivationsStream_def)

text \<open>
  C3 (amended).  For every message that parses and whose deadline has not passed,
  \<open>processMessage\<close> calls the handler once, then makes one attempt to append one entry
  to the activations stream (no attempt when the result cannot be marshalled), and then
  acknowledges the message.  The entry carries the handler's result, or the status-500
  error result when the handler failed; it is in the stream only if the \<open>XADD\<close>
  succeeded.  The acknowledgement follows the attempt whatever its outcome.
\<close>

theorem C3_publish_attempt_then_ack:
  assumes "parseInvocationMessage env (xm_Values msg) = Inr invMsg"
    and "\<not> ce_now env > im_Deadline invMsg"
    and "result = (case ce_handler env invMsg of Inl err \<Rightarrow> error_result env invMsg err | Inr r \<Rightarrow> r)"
  shows "processMessage env msg =
           EvHandleInvocation invMsg #
           (if ce_marshal_ok env result
            then [XAdd ActivationsStream
                    \<lparr>xv_activation_id = ar_ActivationID result, xv_namespace = ar_Namespace result,
                     xv_success = rsp_Success (ar_Response result), xv_data = result\<rparr>
                    (ce_xadd_ok env)]
            else [])
           @ [XAck StreamName GroupName (xm_ID msg) (ce_xack_ok env)]"
  unfolding processMessage_handled [OF assms(1,2)] assms(3)
  by (simp add: publishResult_def)

theorem C3_publish_attempt_then_ack_witness:
  "processMessage (scenario_consumer 1000 (Inr scenario_result) True) scenario_xmessage =
     [EvHandleInvocation scenario_invocation,
      XAdd ActivationsStream
        \<lparr>xv_activation_id = ''a1'', xv_namespace = ''guest'', xv_success = True,
         xv_data = scenario_result\<rparr> True,
      XAck StreamName GroupName ''1-0'' True]"
  using C3_publish_attempt_then_ack [of "scenario_consumer 1000 (Inr scenario_result) True"
      scenario_xmessage scenario_invocation scenario_result]
  by (simp add: parseInvocationMessage_def scenario_consumer_def scenario_xmessage_def
      scenario_invocation_def scenario_result_def)

text \<open>
  C5 (as stated, refuted).  The same message processed at time 6000, after its deadline:
  the result that is published has status-code 500, not 3.
\<close>

theorem C5_status_500_counterexample:
  "processMessage (scenario_consumer 6000 (Inr scenario_result) True) scenario_xmessage =
     [XAck ''penguinwhisk:invocations'' ''invokers'' ''1-0'' True,
      XAdd ''penguinwhisk:activations''
        \<lparr>xv_activation_id = ''a1'', xv_namespace = ''guest'', xv_success = False,
         xv_data =
           \<lparr>ar_ActivationID = ''a1'', ar_Namespace = ''guest'', ar_Name = ''A'', ar_Version = ''0.0.1'',
            ar_Response = \<lparr>rsp_StatusCode = 500, rsp_Success = False, rsp_Result = None,
                           rsp_Error = ''Invocation deadline exceeded''\<rparr>,
            ar_Start = 6000, ar_End = 6000, ar_Duration = 0, ar_Logs = []\<rparr>\<rparr> True]"
  by (simp add: processMessage_def parseInvocationMessage_def publishResult_def ackMessage_def
      publishErrorResult_def error_result_def
      scenario_consumer_def scenario_xmessage_def scenario_invocation_def
      StreamName_def GroupName_def ActivationsStream_def)

text \<open>
  C5 (amended).  For every message that parses and whose deadline is already past, the
  consumer acknowledges the message, makes one attempt to publish an error result with
  status-code 500, \<open>success = false\<close> and error \<open>Invocation deadline exceeded\<close>, and
  never calls the handler, so no sandbox is created for it.
\<close>

theorem C5_expired_message:
  assumes "parseInvocationMessage env (xm_Values msg) = Inr invMsg"
    and "ce_now env > im_Deadline invMsg"
    and "result = error_result env invMsg ''Invocation deadline exceeded''"
  shows "processMessage env msg =
           XAck StreamName GroupName (xm_ID msg) (ce_xack_ok env) #
           (if ce_marshal_ok env result
            then [XAdd ActivationsStream
                    \<lparr>xv_activation_id = im_ActivationID invMsg,
                     xv_namespace = as_Namespace (im_Action invMsg),
                     xv_success = False, xv_data = result\<rparr>
                    (ce_xadd_ok env)]
            else [])
         \<and> rsp_StatusCode (ar_Response result) = 500
         \<and> rsp_Success (ar_Response result) = False
         \<and> rsp_Error (ar_Response result) = ''Invocation deadline exceeded''
         \<and> (\<forall>m. EvHandleInvocation m \<notin> set (processMessage env msg))"
  using assms
  by (simp add: processMessage_def ackMessage_def publishErrorResult_def publishResult_def
      error_result_def)

theorem C5_expired_message_witness:
  "processMessage (scenario_consumer 6000 (Inr scenario_result) True) scenario_xmessage =
     [XAck StreamName GroupName ''1-0'' True,
      XAdd ActivationsStream
        \<lparr>xv_activation_id = ''a1'', xv_namespace = ''guest'', xv_success = False,
         xv_data = error_result (scenario_consumer 6000 (Inr scenario_result) True) scenario_invocation
                     ''Invocation deadline exceeded''\<rparr> True]
   \<and> rsp_StatusCode (ar_Response (error_result (scenario_consumer 6000 (Inr scenario_result) True)
        scenario_invocation ''Invocation deadline exceeded'')) = 500"
  using C5_expired_message [of "scenario_consumer 6000 (Inr scenario_result) True" scenario_xmessage
      scenario_invocation
      "error_result (scenario_consumer 6000 (Inr scenario_result) True) scenario_invocation
         ''Invocation deadline exceeded''"]
  by (simp add: parseInvocationMessage_def scenario_consumer_def scenario_xmessage_def
      scenario_invocation_def)

section \<open>Properties of the log collector\<close>











lemma parseLogs_frame:
  assumes "length header = 8"
    and "BigEndian_Uint32 (drop 4 header) = length payload"
  shows "parseLogs L (header @ payload @ rest) lines =
           (case parseLogLine L payload (header ! 0) of
              None \<Rightarrow> parseLogs L rest lines
            | Some logLine \<Rightarrow>
                if Contains (Message logLine) LogMarker then Inr (lines @ [logLine], rest)
                else parseLogs L rest (lines @ [logLine]))"
proof -
  have ne: "header @ payload @ rest \<noteq> []"
    using assms(1) by auto
  have len: "\<not> length (header @ payload @ rest) < 8"
    using assms(1) by simp
  have tk: "take 8 (header @ payload @ rest) = header"
    and dr: "drop 8 (header @ payload @ rest) = payload @ rest"
    using assms(1) by simp_all
  show ?thesis
    by (subst parseLogs.simps)
      (simp only: ne len tk dr if_False Let_def assms(2), simp split: option.split)
qed

lemma marker_payload_malformed:
  "parseLogLine scenario_textlib LogMarker c = None"
  by (simp add: parseLogLine_def scenario_textlib_def trim_ascii_def SplitN2_def LogMarker_def)

lemma after_payload:
  "parseLogLine scenario_textlib ''2024-01-01T00:00:00Z after'' (CHR 0x01) =
     Some \<lparr>Timestamp = 1704067200000000000, Stream = ''stdout'', Message = ''after''\<rparr>"
  by (simp add: parseLogLine_def scenario_textlib_def trim_ascii_def SplitN2_def)





text \<open>
  The hypothesis that the marker frame parses is used: a payload that is the marker alone,
  without a time stamp, is a malformed frame and is skipped like any other.  The daemon
  does not deliver such a frame when it stamps every line.
\<close>

lemma parseLogs_skips_unparsed_frame:
  "parseLogs scenario_textlib
     ([CHR 0x01, CHR 0x00, CHR 0x00, CHR 0x00, CHR 0x00, CHR 0x00, CHR 0x00, CHR 0x25]
        @ ''XXX_THE_END_OF_A_WHISK_ACTIVATION_XXX''
        @ [CHR 0x01, CHR 0x00, CHR 0x00, CHR 0x00, CHR 0x00, CHR 0x00, CHR 0x00, CHR 0x1A]
        @ ''2024-01-01T00:00:00Z after'') []
   = Inr ([\<lparr>Timestamp = 1704067200000000000, Stream = ''stdout'', Message = ''after''\<rparr>], [])"
proof -
  have m: "parseLogLine scenario_textlib ''XXX_THE_END_OF_A_WHISK_ACTIVATION_XXX'' (CHR 0x01) = None"
    using marker_payload_malformed [of "CHR 0x01"] by (simp add: LogMarker_def)
  have c: "\<not> Contains ''after'' LogMarker"
    by (simp add: Contains_def LogMarker_def sublist_code)
  have 1: "parseLogs scenario_textlib
      ([CHR 0x01, CHR 0x00, CHR 0x00, CHR 0x00, CHR 0x00, CHR 0x00, CHR 0x00, CHR 0x25]
        @ ''XXX_THE_END_OF_A_WHISK_ACTIVATION_XXX''
        @ ([CHR 0x01, CHR 0x00, CHR 0x00, CHR 0x00, CHR 0x00, CHR 0x00, CHR 0x00, CHR 0x1A]
        @ ''2024-01-01T00:00:00Z after'' @ [])) []
     = parseLogs scenario_textlib
        ([CHR 0x01, CHR 0x00, CHR 0x00, CHR 0x00, CHR 0x00, CHR 0x00, CHR 0x00, CHR 0x1A]
        @ ''2024-01-01T00:00:00Z after'' @ []) []"
    by (subst parseLogs_frame) (simp_all add: BigEndian_Uint32_def m)
  have 2: "parseLogs scenario_textlib
        ([CHR 0x01, CHR 0x00, CHR 0x00, CHR 0x00, CHR 0x00, CHR 0x00, CHR 0x00, CHR 0x1A]
        @ ''2024-01-01T00:00:00Z after'' @ []) []
     = parseLogs scenario_textlib [] [\<lparr>Timestamp = 1704067200000000000, Stream = ''stdout'', Message = ''after''\<rparr>]"
    by (subst parseLogs_frame) (simp_all add: BigEndian_Uint32_def after_payload c)
  from 1 2 show ?thesis
    by (simp add: parseLogs.simps [of _ "[]"])
qed








end
